theory Spec2Isabelle
  imports Main
begin

section \<open>Python strings\<close>

text \<open>
  A Python \<open>str\<close> is modelled as a \<open>string\<close> holding its UTF-8 encoding: one
  \<open>char\<close> per byte. A code point is a lead byte followed by its continuation bytes
  (\<open>0x80..0xBF\<close>). The functions below that depend on code points (\<open>len\<close>,
  \<open>list\<close>, \<open>strip\<close>, the regular expression class \<open>\s\<close>) work on these units.
\<close>

datatype exn = AttributeError | ValueError | TypeError | IndexError | KeyError
  | ZeroDivisionError
  | HTTPError nat | LibraryError string

definition startswith :: "string \<Rightarrow> string \<Rightarrow> bool" where
  "startswith s p = (take (length p) s = p)"

definition is_cont :: "char \<Rightarrow> bool" where
  "is_cont c = (128 \<le> (of_char c :: nat) \<and> (of_char c :: nat) < 192)"

fun py_chars_aux :: "string \<Rightarrow> string \<Rightarrow> string list" where
  "py_chars_aux cur [] = [cur]"
| "py_chars_aux cur (c # cs) =
     (if is_cont c then py_chars_aux (cur @ [c]) cs else cur # py_chars_aux [c] cs)"

text \<open>\<open>list(s)\<close>: the code points of \<open>s\<close>, each as a one-character string.\<close>

fun py_chars :: "string \<Rightarrow> string list" where
  "py_chars [] = []"
| "py_chars (c # cs) = py_chars_aux [c] cs"

definition py_len :: "string \<Rightarrow> nat" where
  "py_len s = length (py_chars s)"

text \<open>
  The characters for which \<open>str.isspace\<close> holds (the same set as \<open>\s\<close> in a \<open>str\<close>
  pattern): U+0009..U+000D, U+001C..U+0020, U+0085, U+00A0, U+1680, U+2000..U+200A,
  U+2028, U+2029, U+202F, U+205F, U+3000.
\<close>

definition isspace :: "string \<Rightarrow> bool" where
  "isspace u =
     (case map (of_char :: char \<Rightarrow> nat) u of
        [a] \<Rightarrow> (9 \<le> a \<and> a \<le> 13) \<or> (28 \<le> a \<and> a \<le> 32)
      | [a, b] \<Rightarrow> a = 0xC2 \<and> (b = 0x85 \<or> b = 0xA0)
      | [a, b, c] \<Rightarrow>
          (a = 0xE1 \<and> b = 0x9A \<and> c = 0x80)
          \<or> (a = 0xE2 \<and> b = 0x80 \<and> ((0x80 \<le> c \<and> c \<le> 0x8A) \<or> c = 0xA8 \<or> c = 0xA9 \<or> c = 0xAF))
          \<or> (a = 0xE2 \<and> b = 0x81 \<and> c = 0x9F)
          \<or> (a = 0xE3 \<and> b = 0x80 \<and> c = 0x80)
      | _ \<Rightarrow> False)"

definition lstrip :: "string \<Rightarrow> string" where
  "lstrip s = concat (dropWhile isspace (py_chars s))"

definition rstrip :: "string \<Rightarrow> string" where
  "rstrip s = concat (rev (dropWhile isspace (rev (py_chars s))))"

text \<open>\<open>s.strip()\<close>\<close>

definition strip :: "string \<Rightarrow> string" where
  "strip s = concat (rev (dropWhile isspace (rev (dropWhile isspace (py_chars s)))))"

text \<open>\<open>sep.join(xs)\<close>\<close>

fun join :: "string \<Rightarrow> string list \<Rightarrow> string" where
  "join sep [] = []"
| "join sep [x] = x"
| "join sep (x # y # ys) = x @ sep @ join sep (y # ys)"

text \<open>\<open>s.split(c)\<close> for a one-character separator: always at least one part.\<close>

fun split_char :: "char \<Rightarrow> string \<Rightarrow> string list" where
  "split_char c [] = [[]]"
| "split_char c (x # xs) =
     (if x = c then [] # split_char c xs
      else (case split_char c xs of p # ps \<Rightarrow> (x # p) # ps | [] \<Rightarrow> [[x]]))"

text \<open>\<open>s.upper()\<close> and \<open>s.lower()\<close> on the ASCII letters, the only ones they meet here.\<close>

definition ascii_upper :: "char \<Rightarrow> char" where
  "ascii_upper c = (if 97 \<le> (of_char c :: nat) \<and> (of_char c :: nat) \<le> 122
                    then char_of ((of_char c :: nat) - 32) else c)"

definition ascii_lower :: "char \<Rightarrow> char" where
  "ascii_lower c = (if 65 \<le> (of_char c :: nat) \<and> (of_char c :: nat) \<le> 90
                    then char_of ((of_char c :: nat) + 32) else c)"

text \<open>The error marker, U+274C, that starts every failure message.\<close>

definition error_marker :: string where
  "error_marker = [CHR 0xE2, CHR 0x9D, CHR 0x8C]"

section \<open>urllib.parse\<close>

text \<open>
  \<open>urlsplit\<close>, \<open>urlparse\<close>, \<open>urlunsplit\<close>, \<open>urlunparse\<close> and \<open>urljoin\<close> of the
  standard library (CPython 3.11), for \<open>str\<close> arguments and \<open>allow_fragments=True\<close>. Two
  checks of \<open>urlsplit\<close> depend on Unicode tables and on the \<open>ipaddress\<close> module; they
  are parameters: \<open>nfkc_ok netloc\<close> is False where \<open>_checknetloc\<close> raises on a non-ASCII
  netloc, \<open>bracketed_ok host\<close> is False where \<open>_check_bracketed_host\<close> raises.
\<close>

record urllib =
  nfkc_ok :: "string \<Rightarrow> bool"
  bracketed_ok :: "string \<Rightarrow> bool"

record parse_result =
  scheme :: string
  netloc :: string
  path :: string
  params :: string
  query :: string
  fragment :: string

definition uses_relative :: "string list" where
  "uses_relative = ['''', ''ftp'', ''http'', ''gopher'', ''nntp'', ''imap'',
     ''wais'', ''file'', ''https'', ''shttp'', ''mms'',
     ''prospero'', ''rtsp'', ''rtsps'', ''rtspu'', ''sftp'',
     ''svn'', ''svn+ssh'', ''ws'', ''wss'']"

definition uses_netloc :: "string list" where
  "uses_netloc = ['''', ''ftp'', ''http'', ''gopher'', ''nntp'', ''telnet'',
     ''imap'', ''wais'', ''file'', ''mms'', ''https'', ''shttp'',
     ''snews'', ''prospero'', ''rtsp'', ''rtsps'', ''rtspu'', ''rsync'',
     ''svn'', ''svn+ssh'', ''sftp'', ''nfs'', ''git'', ''git+ssh'',
     ''ws'', ''wss'']"

definition uses_params :: "string list" where
  "uses_params = ['''', ''ftp'', ''hdl'', ''prospero'', ''http'', ''imap'',
     ''https'', ''shttp'', ''rtsp'', ''rtsps'', ''rtspu'', ''sip'',
     ''sips'', ''mms'', ''sftp'', ''tel'']"

definition scheme_char :: "char \<Rightarrow> bool" where
  "scheme_char c =
     (let n = (of_char c :: nat) in
      (97 \<le> n \<and> n \<le> 122) \<or> (65 \<le> n \<and> n \<le> 90) \<or> (48 \<le> n \<and> n \<le> 57)
      \<or> c = CHR ''+'' \<or> c = CHR ''-'' \<or> c = CHR ''.'')"

definition ascii_alpha :: "char \<Rightarrow> bool" where
  "ascii_alpha c =
     (let n = (of_char c :: nat) in (97 \<le> n \<and> n \<le> 122) \<or> (65 \<le> n \<and> n \<le> 90))"

definition is_ascii :: "string \<Rightarrow> bool" where
  "is_ascii s = list_all (\<lambda>c. (of_char c :: nat) < 128) s"

text \<open>\<open>_WHATWG_C0_CONTROL_OR_SPACE\<close> and \<open>_UNSAFE_URL_BYTES_TO_REMOVE\<close>\<close>

definition c0_or_space :: "char \<Rightarrow> bool" where
  "c0_or_space c = ((of_char c :: nat) \<le> 32)"

definition unsafe_byte :: "char \<Rightarrow> bool" where
  "unsafe_byte c = (c = CHR 0x09 \<or> c = CHR 0x0D \<or> c = CHR 0x0A)"

definition clean_url :: "string \<Rightarrow> string" where
  "clean_url url = filter (\<lambda>c. \<not> unsafe_byte c) (dropWhile c0_or_space url)"

definition clean_scheme :: "string \<Rightarrow> string" where
  "clean_scheme s =
     filter (\<lambda>c. \<not> unsafe_byte c) (rev (dropWhile c0_or_space (rev (dropWhile c0_or_space s))))"

text \<open>
  The scheme test of \<open>urlsplit\<close>: \<open>i = url.find(':')\<close>, \<open>i > 0\<close>, the first character
  an ASCII letter, every character before the colon in \<open>scheme_chars\<close>.
\<close>

definition split_scheme :: "string \<Rightarrow> string \<Rightarrow> string \<times> string" where
  "split_scheme dflt url =
     (let pre = takeWhile (\<lambda>c. c \<noteq> CHR '':'') url in
      if CHR '':'' \<in> set url \<and> pre \<noteq> [] \<and> ascii_alpha (hd url) \<and> list_all scheme_char pre
      then (map ascii_lower pre, drop (Suc (length pre)) url)
      else (dflt, url))"

definition netloc_delim :: "char \<Rightarrow> bool" where
  "netloc_delim c = (c = CHR ''/'' \<or> c = CHR ''?'' \<or> c = CHR ''#'')"

text \<open>\<open>_splitnetloc(url, 2)\<close>\<close>

definition splitnetloc :: "string \<Rightarrow> string \<times> string" where
  "splitnetloc url =
     (takeWhile (\<lambda>c. \<not> netloc_delim c) (drop 2 url),
      dropWhile (\<lambda>c. \<not> netloc_delim c) (drop 2 url))"

text \<open>\<open>s.split(c, 1)\<close> when \<open>c\<close> occurs in \<open>s\<close>\<close>

definition split_once :: "char \<Rightarrow> string \<Rightarrow> string \<times> string" where
  "split_once c s = (takeWhile (\<lambda>x. x \<noteq> c) s, drop 1 (dropWhile (\<lambda>x. x \<noteq> c) s))"

definition urlsplit :: "urllib \<Rightarrow> string \<Rightarrow> string \<Rightarrow> exn + parse_result" where
  "urlsplit L url0 scheme0 =
     (let (sch, url1) = split_scheme (clean_scheme scheme0) (clean_url url0);
          (nl, url2) = (if take 2 url1 = ''//'' then splitnetloc url1 else ([], url1));
          lb = CHR ''['' \<in> set nl; rb = CHR '']'' \<in> set nl
      in if take 2 url1 = ''//'' \<and> ((lb \<and> \<not> rb) \<or> (rb \<and> \<not> lb)) then Inl ValueError
         else if take 2 url1 = ''//'' \<and> lb \<and> rb
                 \<and> \<not> bracketed_ok L
                       (takeWhile (\<lambda>c. c \<noteq> CHR '']'') (drop 1 (dropWhile (\<lambda>c. c \<noteq> CHR ''['') nl)))
         then Inl ValueError
         else
           let (url3, frag) = (if CHR ''#'' \<in> set url2 then split_once (CHR ''#'') url2 else (url2, []));
               (url4, q) = (if CHR ''?'' \<in> set url3 then split_once (CHR ''?'') url3 else (url3, []))
           in if nl \<noteq> [] \<and> \<not> is_ascii nl \<and> \<not> nfkc_ok L nl then Inl ValueError
              else Inr \<lparr>scheme = sch, netloc = nl, path = url4, params = [],
                        query = q, fragment = frag\<rparr>)"

text \<open>\<open>_splitparams\<close>, called when \<open>';'\<close> occurs in the path\<close>

definition splitparams :: "string \<Rightarrow> string \<times> string" where
  "splitparams url =
     (if CHR ''/'' \<in> set url then
        (let k = length url - Suc (length (takeWhile (\<lambda>c. c \<noteq> CHR ''/'') (rev url)));
             hd_part = take k url; tl_part = drop k url
         in if CHR '';'' \<in> set tl_part
            then (hd_part @ takeWhile (\<lambda>c. c \<noteq> CHR '';'') tl_part,
                  drop 1 (dropWhile (\<lambda>c. c \<noteq> CHR '';'') tl_part))
            else (url, []))
      else split_once (CHR '';'') url)"

definition urlparse :: "urllib \<Rightarrow> string \<Rightarrow> string \<Rightarrow> exn + parse_result" where
  "urlparse L url scheme0 =
     (case urlsplit L url scheme0 of
        Inl e \<Rightarrow> Inl e
      | Inr r \<Rightarrow>
          if scheme r \<in> set uses_params \<and> CHR '';'' \<in> set (path r)
          then (let (u, p) = splitparams (path r) in Inr (r\<lparr>path := u, params := p\<rparr>))
          else Inr (r\<lparr>params := []\<rparr>))"

definition urlunsplit :: "string \<Rightarrow> string \<Rightarrow> string \<Rightarrow> string \<Rightarrow> string \<Rightarrow> string" where
  "urlunsplit sch nl url q frag =
     (let url1 = (if nl \<noteq> [] \<or> (sch \<noteq> [] \<and> sch \<in> set uses_netloc) \<or> take 2 url = ''//''
                  then ''//'' @ nl @ (if url \<noteq> [] \<and> take 1 url \<noteq> ''/'' then ''/'' @ url else url)
                  else url);
          url2 = (if sch \<noteq> [] then sch @ '':'' @ url1 else url1);
          url3 = (if q \<noteq> [] then url2 @ ''?'' @ q else url2)
      in if frag \<noteq> [] then url3 @ ''#'' @ frag else url3)"

definition urlunparse :: "parse_result \<Rightarrow> string" where
  "urlunparse r =
     urlunsplit (scheme r) (netloc r)
       (if params r \<noteq> [] then path r @ '';'' @ params r else path r) (query r) (fragment r)"

text \<open>The loop of \<open>urljoin\<close> over the segments; \<open>resolved_path\<close> is kept in order.\<close>

fun resolve_segments :: "string list \<Rightarrow> string list \<Rightarrow> string list" where
  "resolve_segments resolved [] = resolved"
| "resolve_segments resolved (seg # segs) =
     (if seg = ''..'' then resolve_segments (butlast resolved) segs
      else if seg = ''.'' then resolve_segments resolved segs
      else resolve_segments (resolved @ [seg]) segs)"

text \<open>\<open>segments[1:-1] = filter(None, segments[1:-1])\<close>\<close>

definition filter_middle :: "string list \<Rightarrow> string list" where
  "filter_middle segs =
     (if length segs < 2 then segs
      else hd segs # filter (\<lambda>s. s \<noteq> []) (butlast (tl segs)) @ [last segs])"

definition urljoin :: "urllib \<Rightarrow> string \<Rightarrow> string \<Rightarrow> exn + string" where
  "urljoin L base url =
     (if base = [] then Inr url
      else if url = [] then Inr base
      else case urlparse L base [] of
        Inl e \<Rightarrow> Inl e
      | Inr b \<Rightarrow>
        (case urlparse L url (scheme b) of
           Inl e \<Rightarrow> Inl e
         | Inr u \<Rightarrow>
           if scheme u \<noteq> scheme b \<or> scheme u \<notin> set uses_relative then Inr url
           else if scheme u \<in> set uses_netloc \<and> netloc u \<noteq> [] then Inr (urlunparse u)
           else
             let nl = (if scheme u \<in> set uses_netloc then netloc b else netloc u) in
             if path u = [] \<and> params u = [] then
               Inr (urlunparse (u\<lparr>netloc := nl, path := path b, params := params b,
                                  query := (if query u = [] then query b else query u)\<rparr>))
             else
               let base_parts0 = split_char (CHR ''/'') (path b);
                   base_parts = (if last base_parts0 \<noteq> [] then butlast base_parts0 else base_parts0);
                   segments = (if take 1 (path u) = ''/'' then split_char (CHR ''/'') (path u)
                               else filter_middle (base_parts @ split_char (CHR ''/'') (path u)));
                   resolved0 = resolve_segments [] segments;
                   resolved = (if last segments = ''.'' \<or> last segments = ''..''
                               then resolved0 @ [[]] else resolved0);
                   joined = join ''/'' resolved
               in Inr (urlunparse (u\<lparr>netloc := nl,
                                      path := (if joined = [] then ''/'' else joined)\<rparr>))))"

section \<open>BeautifulSoup\<close>

text \<open>
  The parsed document is a tree of tags and strings. \<open>NavigableString\<close> stands for the
  strings \<open>get_text\<close> collects (classes \<open>NavigableString\<close> and \<open>CData\<close>), \<open>SpecialString\<close>
  for those of every other class (comments, doctypes, declarations). The tokenizer and tree
  builder of \<open>html.parser\<close> are a parameter (\<open>html_parser\<close> below); navigation of the tree
  is modelled here. The soup object itself is the list of its top-level nodes. Attribute
  values are strings: none of the attributes the source reads is multi-valued.
\<close>

datatype node =
    NavigableString string
  | SpecialString string
  | Tag string "(string \<times> string) list" "node list"

fun tag_name :: "node \<Rightarrow> string" where
  "tag_name (Tag n a cs) = n"
| "tag_name _ = []"

fun tag_attrs :: "node \<Rightarrow> (string \<times> string) list" where
  "tag_attrs (Tag n a cs) = a"
| "tag_attrs _ = []"

fun tag_contents :: "node \<Rightarrow> node list" where
  "tag_contents (Tag n a cs) = cs"
| "tag_contents _ = []"

fun is_tag :: "node \<Rightarrow> bool" where
  "is_tag (Tag n a cs) = True"
| "is_tag _ = False"

text \<open>All nodes below a tag with the given contents, in document order.\<close>

fun descendants :: "node list \<Rightarrow> node list" where
  "descendants [] = []"
| "descendants (Tag n a cs # ns) = Tag n a cs # descendants cs @ descendants ns"
| "descendants (NavigableString s # ns) = NavigableString s # descendants ns"
| "descendants (SpecialString s # ns) = SpecialString s # descendants ns"

text \<open>\<open>tag.find_all(names)\<close>, as a function of \<open>tag.contents\<close>\<close>

definition find_all :: "string list \<Rightarrow> node list \<Rightarrow> node list" where
  "find_all names cs = filter (\<lambda>n. is_tag n \<and> tag_name n \<in> set names) (descendants cs)"

text \<open>\<open>tag.get(key, default)\<close> and \<open>tag.has_attr(key)\<close>\<close>

definition attr_get :: "node \<Rightarrow> string \<Rightarrow> string \<Rightarrow> string" where
  "attr_get t key dflt = (case map_of (tag_attrs t) key of Some v \<Rightarrow> v | None \<Rightarrow> dflt)"

definition has_attr :: "node \<Rightarrow> string \<Rightarrow> bool" where
  "has_attr t key = (map_of (tag_attrs t) key \<noteq> None)"

text \<open>\<open>tag.get_text()\<close>, as a function of \<open>tag.contents\<close>\<close>

fun get_text :: "node list \<Rightarrow> string" where
  "get_text [] = []"
| "get_text (Tag n a cs # ns) = get_text cs @ get_text ns"
| "get_text (NavigableString s # ns) = s @ get_text ns"
| "get_text (SpecialString s # ns) = get_text ns"

text \<open>
  The \<open>.string\<close> property: a tag with exactly one child has that child's string, any
  other tag has none.
\<close>

fun dot_string :: "node list \<Rightarrow> string option" where
  "dot_string [NavigableString s] = Some s"
| "dot_string [SpecialString s] = Some s"
| "dot_string [Tag n a cs] = dot_string cs"
| "dot_string _ = None"

section \<open>The structured document\<close>

record link =
  link_text :: string
  link_url :: string
  link_is_external :: bool

record image =
  img_src :: string
  img_alt :: string
  img_title :: string

record list_entry =
  list_type :: string
  list_items :: "string list"

record form_input =
  input_type :: string
  input_name :: string
  input_placeholder :: string
  input_required :: bool

record form =
  form_action :: string
  form_method :: string
  form_inputs :: "form_input list"

record contact_info =
  emails :: "string list"
  phones :: "string list"
  addresses :: "string list"

record headings =
  h1 :: "string list"
  h2 :: "string list"
  h3 :: "string list"

record dom_data =
  dd_title :: string
  dd_meta_description :: string
  dd_headings :: headings
  dd_links :: "link list"
  dd_images :: "image list"
  dd_paragraphs :: "string list"
  dd_lists :: "list_entry list"
  dd_tables :: "string list list list"
  dd_forms :: "form list"
  dd_contact_info :: contact_info

section \<open>Library parameters\<close>

datatype pattern = Email_pattern | Phone_us | Phone_paren | Phone_international

text \<open>
  What the model takes from outside the repository: the HTML parser behind
  \<open>BeautifulSoup(markup, 'html.parser')\<close>, which may raise; \<open>re.findall\<close> for the four
  patterns of the source (none has a group, so each match is a string); the order in which
  a \<open>set\<close> of strings is iterated; the two checks of \<open>urlsplit\<close>.
\<close>

record library =
  html_parser :: "string \<Rightarrow> exn + node list"
  re_findall :: "pattern \<Rightarrow> string \<Rightarrow> string list"
  set_order :: "string list \<Rightarrow> string list"
  url_checks :: urllib

text \<open>
  \<open>list(set(xs))\<close>: the elements of \<open>xs\<close> without repetition, in the order \<open>set_order\<close>
  gives; a \<open>set_order\<close> that does not enumerate them once each is replaced by the order
  of first occurrence.
\<close>

definition list_of_set :: "library \<Rightarrow> string list \<Rightarrow> string list" where
  "list_of_set L xs =
     (let ys = set_order L xs in if distinct ys \<and> set ys = set xs then ys else remdups xs)"

section \<open>parse\_dom\_content\<close>

text \<open>\<open>soup.title.string.strip() if soup.title else 'No title found'\<close>\<close>

definition extract_title :: "node list \<Rightarrow> exn + string" where
  "extract_title soup =
     (case find_all [''title''] soup of
        [] \<Rightarrow> Inr ''No title found''
      | t # ts \<Rightarrow> (case dot_string (tag_contents t) of
                    None \<Rightarrow> Inl AttributeError
                  | Some s \<Rightarrow> Inr (strip s)))"

definition heading_texts :: "string \<Rightarrow> node list \<Rightarrow> string list" where
  "heading_texts level soup = map (\<lambda>h. strip (get_text (tag_contents h))) (find_all [level] soup)"

definition extract_paragraphs :: "node list \<Rightarrow> string list" where
  "extract_paragraphs soup =
     map (\<lambda>p. strip (get_text (tag_contents p)))
       (filter (\<lambda>p. strip (get_text (tag_contents p)) \<noteq> []) (find_all [''p''] soup))"

text \<open>\<open>soup.find('meta', attrs={'name': 'description'})\<close> and the lookup of \<open>content\<close>\<close>

definition extract_meta_description :: "node list \<Rightarrow> string" where
  "extract_meta_description soup =
     (case filter (\<lambda>m. map_of (tag_attrs m) ''name'' = Some ''description'') (find_all [''meta''] soup) of
        [] \<Rightarrow> []
      | meta_desc # ms \<Rightarrow> attr_get meta_desc ''content'' [])"

text \<open>The loop over \<open>soup.find_all('a', href=True)\<close>; \<open>acc\<close> is \<open>dom_data['links']\<close>.\<close>

fun links_loop :: "urllib \<Rightarrow> string \<Rightarrow> link list \<Rightarrow> node list \<Rightarrow> exn + link list" where
  "links_loop U base_url acc [] = Inr acc"
| "links_loop U base_url acc (a # as) =
     (let text = strip (get_text (tag_contents a)) in
      case map_of (tag_attrs a) ''href'' of
        None \<Rightarrow> Inl KeyError
      | Some href \<Rightarrow>
        (case urljoin U base_url href of
           Inl e \<Rightarrow> Inl e
         | Inr url \<Rightarrow>
             if text \<noteq> [] then
               (case urlparse U url [] of
                  Inl e \<Rightarrow> Inl e
                | Inr pu \<Rightarrow>
                  (case urlparse U base_url [] of
                     Inl e \<Rightarrow> Inl e
                   | Inr pb \<Rightarrow>
                       links_loop U base_url
                         (acc @ [\<lparr>link_text = text, link_url = url,
                                   link_is_external = (netloc pu \<noteq> netloc pb)\<rparr>]) as))
             else links_loop U base_url acc as))"

definition extract_links :: "urllib \<Rightarrow> string \<Rightarrow> node list \<Rightarrow> exn + link list" where
  "extract_links U base_url soup =
     links_loop U base_url [] (filter (\<lambda>a. has_attr a ''href'') (find_all [''a''] soup))"

text \<open>The loop over \<open>soup.find_all('img')\<close>\<close>

fun images_loop :: "urllib \<Rightarrow> string \<Rightarrow> image list \<Rightarrow> node list \<Rightarrow> exn + image list" where
  "images_loop U base_url acc [] = Inr acc"
| "images_loop U base_url acc (img # imgs) =
     (let src = attr_get img ''src'' [] in
      if src \<noteq> [] then
        (case urljoin U base_url src of
           Inl e \<Rightarrow> Inl e
         | Inr u \<Rightarrow>
             images_loop U base_url
               (acc @ [\<lparr>img_src = u, img_alt = attr_get img ''alt'' [],
                         img_title = attr_get img ''title'' []\<rparr>]) imgs)
      else images_loop U base_url acc imgs)"

definition extract_images :: "urllib \<Rightarrow> string \<Rightarrow> node list \<Rightarrow> exn + image list" where
  "extract_images U base_url soup = images_loop U base_url [] (find_all [''img''] soup)"

text \<open>The loop over \<open>soup.find_all(['ul', 'ol'])\<close>\<close>

fun lists_loop :: "list_entry list \<Rightarrow> node list \<Rightarrow> list_entry list" where
  "lists_loop acc [] = acc"
| "lists_loop acc (ul # uls) =
     (let list_items = map (\<lambda>li. strip (get_text (tag_contents li)))
                         (find_all [''li''] (tag_contents ul)) in
      if list_items \<noteq> []
      then lists_loop (acc @ [\<lparr>list_type = tag_name ul, list_items = list_items\<rparr>]) uls
      else lists_loop acc uls)"

text \<open>The two loops over the tables and over the rows of a table\<close>

fun rows_loop :: "string list list \<Rightarrow> node list \<Rightarrow> string list list" where
  "rows_loop table_data [] = table_data"
| "rows_loop table_data (row # rows) =
     (let row_data = map (\<lambda>cell. strip (get_text (tag_contents cell)))
                       (find_all [''td'', ''th''] (tag_contents row)) in
      if row_data \<noteq> [] then rows_loop (table_data @ [row_data]) rows
      else rows_loop table_data rows)"

fun tables_loop :: "string list list list \<Rightarrow> node list \<Rightarrow> string list list list" where
  "tables_loop acc [] = acc"
| "tables_loop acc (table # tables) =
     (let table_data = rows_loop [] (find_all [''tr''] (tag_contents table)) in
      if table_data \<noteq> [] then tables_loop (acc @ [table_data]) tables
      else tables_loop acc tables)"

text \<open>The loops over the forms and over the fields of a form\<close>

fun inputs_loop :: "form_input list \<Rightarrow> node list \<Rightarrow> form_input list" where
  "inputs_loop acc [] = acc"
| "inputs_loop acc (input_field # rest) =
     inputs_loop
       (acc @ [\<lparr>input_type = attr_get input_field ''type'' (tag_name input_field),
                 input_name = attr_get input_field ''name'' [],
                 input_placeholder = attr_get input_field ''placeholder'' [],
                 input_required = has_attr input_field ''required''\<rparr>]) rest"

fun forms_loop :: "form list \<Rightarrow> node list \<Rightarrow> form list" where
  "forms_loop acc [] = acc"
| "forms_loop acc (f # fs) =
     forms_loop
       (acc @ [\<lparr>form_action = attr_get f ''action'' [],
                 form_method = attr_get f ''method'' ''get'',
                 form_inputs = inputs_loop []
                   (find_all [''input'', ''textarea'', ''select''] (tag_contents f))\<rparr>]) fs"

text \<open>The contact patterns over \<open>soup.get_text()\<close>\<close>

definition extract_contact_info :: "library \<Rightarrow> node list \<Rightarrow> contact_info" where
  "extract_contact_info L soup =
     (let text_content = get_text soup in
      \<lparr>emails = list_of_set L (re_findall L Email_pattern text_content),
       phones = list_of_set L
                  (([] @ re_findall L Phone_us text_content)
                     @ re_findall L Phone_paren text_content
                     @ re_findall L Phone_international text_content),
       addresses = []\<rparr>)"

text \<open>The body of the \<open>try\<close> block\<close>

definition parse_dom_body :: "library \<Rightarrow> string \<Rightarrow> string \<Rightarrow> exn + dom_data" where
  "parse_dom_body L html_content base_url =
     (case html_parser L html_content of
        Inl e \<Rightarrow> Inl e
      | Inr soup \<Rightarrow>
        (case extract_title soup of
           Inl e \<Rightarrow> Inl e
         | Inr title \<Rightarrow>
           (case extract_links (url_checks L) base_url soup of
              Inl e \<Rightarrow> Inl e
            | Inr links \<Rightarrow>
              (case extract_images (url_checks L) base_url soup of
                 Inl e \<Rightarrow> Inl e
               | Inr images \<Rightarrow>
                   Inr \<lparr>dd_title = title,
                        dd_meta_description = extract_meta_description soup,
                        dd_headings = \<lparr>h1 = heading_texts ''h1'' soup,
                                        h2 = heading_texts ''h2'' soup,
                                        h3 = heading_texts ''h3'' soup\<rparr>,
                        dd_links = links,
                        dd_images = images,
                        dd_paragraphs = extract_paragraphs soup,
                        dd_lists = lists_loop [] (find_all [''ul'', ''ol''] soup),
                        dd_tables = tables_loop [] (find_all [''table''] soup),
                        dd_forms = forms_loop [] (find_all [''form''] soup),
                        dd_contact_info = extract_contact_info L soup\<rparr>))))"

text \<open>
  \<open>parse_dom_content\<close>: the guard before the \<open>try\<close>, then the body, whose every exception
  the handler turns into \<open>None\<close>. The result is \<open>Inl\<close> only if an exception leaves the
  function. Output to the console is not modelled.
\<close>

definition parse_dom_content :: "library \<Rightarrow> string \<Rightarrow> string \<Rightarrow> exn + dom_data option" where
  "parse_dom_content L html_content base_url =
     (if html_content = [] \<or> startswith html_content error_marker then Inr None
      else case parse_dom_body L html_content base_url of
             Inl e \<Rightarrow> Inr None
           | Inr d \<Rightarrow> Inr (Some d))"

section \<open>The fetch strategies and scrape\_website\<close>

text \<open>
  The network and the browser are parameters: each operation of \<open>requests\<close> and of the
  Selenium driver either raises or returns. The state of a run holds the strategies
  called so far, in order, and the draws \<open>random.choice\<close> will make.
\<close>

record http_response =
  status_code :: nat
  response_text :: string

record world =
  requests_get :: "string \<Rightarrow> (string \<times> string) list \<Rightarrow> exn + http_response"
  webdriver_chrome :: "string list \<Rightarrow> exn + unit"
  driver_execute_script :: "string \<Rightarrow> exn + unit"
  driver_get :: "string \<Rightarrow> exn + unit"
  driver_page_source :: "string \<Rightarrow> exn + string"
  driver_quit :: "exn + unit"

datatype call = Requests_strategy string | Selenium_strategy string

record run_state =
  calls :: "call list"
  random_draws :: "nat list"

definition user_agents :: "string list" where
  "user_agents =
     [''Mozilla/5.0 (Macintosh; Intel Mac OS X 10_15_7) AppleWebKit/537.36 (KHTML, like Gecko) Chrome/120.0.0.0 Safari/537.36'',
      ''Mozilla/5.0 (Windows NT 10.0; Win64; x64) AppleWebKit/537.36 (KHTML, like Gecko) Chrome/120.0.0.0 Safari/537.36'',
      ''Mozilla/5.0 (X11; Linux x86_64) AppleWebKit/537.36 (KHTML, like Gecko) Chrome/120.0.0.0 Safari/537.36'',
      ''Mozilla/5.0 (Macintosh; Intel Mac OS X 10_15_7) AppleWebKit/605.1.15 (KHTML, like Gecko) Version/17.1 Safari/605.1.15'']"

definition get_random_user_agent :: "run_state \<Rightarrow> string \<times> run_state" where
  "get_random_user_agent st =
     (case random_draws st of
        [] \<Rightarrow> (user_agents ! 0, st)
      | r # rs \<Rightarrow> (user_agents ! (r mod length user_agents), st\<lparr>random_draws := rs\<rparr>))"

text \<open>\<open>response.raise_for_status()\<close> raises on a status from 400 to 599.\<close>

definition raise_for_status :: "http_response \<Rightarrow> exn + unit" where
  "raise_for_status r =
     (if 400 \<le> status_code r \<and> status_code r < 600 then Inl (HTTPError (status_code r))
      else Inr ())"

definition scrape_with_requests :: "world \<Rightarrow> string \<Rightarrow> run_state \<Rightarrow> string option \<times> run_state" where
  "scrape_with_requests W website st =
     (let st1 = st\<lparr>calls := calls st @ [Requests_strategy website]\<rparr>;
          (agent, st2) = get_random_user_agent st1;
          headers = [(''User-Agent'', agent),
                     (''Accept'', ''text/html,application/xhtml+xml,application/xml;q=0.9,image/webp,*/*;q=0.8''),
                     (''Accept-Language'', ''en-US,en;q=0.5''),
                     (''Accept-Encoding'', ''gzip, deflate''),
                     (''Connection'', ''keep-alive'')]
      in case requests_get W website headers of
           Inl e \<Rightarrow> (None, st2)
         | Inr response \<Rightarrow>
             (case raise_for_status response of
                Inl e \<Rightarrow> (None, st2)
              | Inr u \<Rightarrow> (Some (response_text response), st2)))"

definition scrape_with_selenium :: "world \<Rightarrow> string \<Rightarrow> run_state \<Rightarrow> string option \<times> run_state" where
  "scrape_with_selenium W website st =
     (let st1 = st\<lparr>calls := calls st @ [Selenium_strategy website]\<rparr>;
          (agent, st2) = get_random_user_agent st1;
          options = [''--headless'', ''--no-sandbox'', ''--disable-dev-shm-usage'',
                     ''--disable-blink-features=AutomationControlled'',
                     ''--user-agent='' @ agent]
      in case webdriver_chrome W options of
           Inl e \<Rightarrow> (None, st2)
         | Inr u1 \<Rightarrow>
           (case driver_execute_script W
                   ''Object.defineProperty(navigator, 'webdriver', {get: () => undefined})'' of
              Inl e \<Rightarrow> (None, st2)
            | Inr u2 \<Rightarrow>
              (case driver_get W website of
                 Inl e \<Rightarrow> (None, st2)
               | Inr u3 \<Rightarrow>
                 (case driver_page_source W website of
                    Inl e \<Rightarrow> (None, st2)
                  | Inr html \<Rightarrow>
                    (case driver_quit W of
                       Inl e \<Rightarrow> (None, st2)
                     | Inr u4 \<Rightarrow> (Some html, st2))))))"

text \<open>The value of \<open>scrape_website\<close>: a string, or the dictionary with the three keys.\<close>

datatype scrape_result = Str string | Dict string "dom_data option" string

text \<open>Truth value of an optional string: \<open>None\<close> and \<open>""\<close> are false.\<close>

fun truthy :: "string option \<Rightarrow> bool" where
  "truthy None = False"
| "truthy (Some s) = (s \<noteq> [])"

definition invalid_url_message :: string where
  "invalid_url_message = error_marker @ '' Please provide a valid URL''"

definition all_failed_message :: string where
  "all_failed_message = error_marker @
     '' All scraping methods failed. The website might be blocking requests or requires special handling.''"

text \<open>\<open>if not website.startswith(('http://', 'https://')): website = 'https://' + website\<close>\<close>

definition add_protocol :: "string \<Rightarrow> string" where
  "add_protocol website =
     (if \<not> (startswith website ''http://'' \<or> startswith website ''https://'')
      then ''https://'' @ website else website)"

definition scrape_website ::
  "world \<Rightarrow> library \<Rightarrow> string \<Rightarrow> bool \<Rightarrow> run_state \<Rightarrow> (exn + scrape_result) \<times> run_state" where
  "scrape_website W L website0 parse_dom st =
     (if website0 = [] then (Inr (Str invalid_url_message), st)
      else
        let website = add_protocol website0;
            (html1, st1) = scrape_with_requests W website st;
            (html, st2) = (if \<not> truthy html1 then scrape_with_selenium W website st1
                           else (html1, st1))
        in case html of
             None \<Rightarrow> (Inr (Str all_failed_message), st2)
           | Some h \<Rightarrow>
               if h \<noteq> [] then
                 (if parse_dom then
                    (case parse_dom_content L h website of
                       Inl e \<Rightarrow> (Inl e, st2)
                     | Inr d \<Rightarrow> (Inr (Dict h d website), st2))
                  else (Inr (Str h), st2))
               else (Inr (Str all_failed_message), st2))"

text \<open>
  How the callers tell a failure (\<open>app.py\<close>, \<open>main.py\<close>):
  \<open>isinstance(result, str) and result.startswith(marker)\<close>.
\<close>

fun is_failure :: "scrape_result \<Rightarrow> bool" where
  "is_failure (Str s) = startswith s error_marker"
| "is_failure (Dict h d u) = False"

section \<open>create\_content\_chunks\<close>

text \<open>\<open>for script in soup(["script", "style"]): script.decompose()\<close>\<close>

fun decompose :: "string list \<Rightarrow> node list \<Rightarrow> node list" where
  "decompose names [] = []"
| "decompose names (Tag n a cs # ns) =
     (if n \<in> set names then decompose names ns
      else Tag n a (decompose names cs) # decompose names ns)"
| "decompose names (NavigableString s # ns) = NavigableString s # decompose names ns"
| "decompose names (SpecialString s # ns) = SpecialString s # decompose names ns"

text \<open>
  \<open>re.sub(r'\s+', ' ', text)\<close> on the code points of the text: each maximal run of
  whitespace becomes one space. The flag says that the previous character was whitespace.
\<close>

fun collapse_ws :: "bool \<Rightarrow> string list \<Rightarrow> string list" where
  "collapse_ws in_run [] = []"
| "collapse_ws in_run (u # us) =
     (if isspace u then (if in_run then collapse_ws True us else '' '' # collapse_ws True us)
      else u # collapse_ws False us)"

definition normalize_whitespace :: "string \<Rightarrow> string" where
  "normalize_whitespace s = strip (concat (collapse_ws False (py_chars s)))"

subsection \<open>RecursiveCharacterTextSplitter\<close>

text \<open>
  The splitter of \<open>langchain\<close> as the source configures it: literal separators,
  \<open>keep_separator=True\<close>, \<open>strip_whitespace=True\<close>, \<open>length_function=len\<close>.
\<close>

text \<open>\<open>re.search(re.escape(sep), text)\<close>: \<open>sep\<close> occurs in \<open>text\<close>.\<close>

fun contains :: "string \<Rightarrow> string \<Rightarrow> bool" where
  "contains sep [] = (sep = [])"
| "contains sep (c # cs) = (startswith (c # cs) sep \<or> contains sep cs)"

text \<open>The parts of \<open>text\<close> between the occurrences of a non-empty \<open>sep\<close>, left to right.\<close>

function split_on :: "string \<Rightarrow> string \<Rightarrow> string \<Rightarrow> string list" where
  "split_on sep cur [] = [cur]"
| "split_on sep cur (c # cs) =
     (if sep \<noteq> [] \<and> startswith (c # cs) sep
      then cur # split_on sep [] (drop (length sep) (c # cs))
      else split_on sep (cur @ [c]) cs)"
  by pat_completeness auto
termination
  by (relation "measure (\<lambda>(sep, cur, t). length t)") auto

text \<open>
  \<open>_split_text_with_regex(text, separator, keep_separator=True)\<close>: each separator stays
  at the head of the part that follows it; empty parts are dropped. With the empty
  separator the text is split into its characters.
\<close>

definition split_text_with_regex :: "string \<Rightarrow> string \<Rightarrow> string list" where
  "split_text_with_regex text separator =
     filter (\<lambda>s. s \<noteq> [])
       (if separator \<noteq> [] then
          (case split_on separator [] text of
             [] \<Rightarrow> []
           | p # ps \<Rightarrow> p # map (\<lambda>q. separator @ q) ps)
        else py_chars text)"

text \<open>\<open>_join_docs\<close>\<close>

definition join_docs :: "string list \<Rightarrow> string \<Rightarrow> string option" where
  "join_docs docs separator =
     (let text = strip (join separator docs) in if text = [] then None else Some text)"

text \<open>
  The \<open>while\<close> loop of \<open>_merge_splits\<close> that drops parts from the front of
  \<open>current_doc\<close>; \<open>current_doc[0]\<close> on an empty list raises.
\<close>

fun pop_while :: "int \<Rightarrow> int \<Rightarrow> int \<Rightarrow> int \<Rightarrow> int \<Rightarrow> string list \<Rightarrow> exn + (int \<times> string list)" where
  "pop_while chunk_size chunk_overlap sep_len len total_len [] =
     (if total_len > chunk_overlap \<or> (total_len + len > chunk_size \<and> total_len > 0)
      then Inl IndexError else Inr (total_len, []))"
| "pop_while chunk_size chunk_overlap sep_len len total_len (x # xs) =
     (if total_len > chunk_overlap \<or> (total_len + len + sep_len > chunk_size \<and> total_len > 0)
      then pop_while chunk_size chunk_overlap sep_len len
             (total_len - (int (py_len x) + (if xs \<noteq> [] then sep_len else 0))) xs
      else Inr (total_len, x # xs))"

text \<open>
  One iteration of the \<open>for\<close> loop of \<open>_merge_splits\<close> on the split \<open>d\<close>. The state is
  \<open>(docs, current_doc, total)\<close>.
\<close>

definition merge_step ::
  "int \<Rightarrow> int \<Rightarrow> string \<Rightarrow> string list \<times> string list \<times> int \<Rightarrow> string
     \<Rightarrow> exn + (string list \<times> string list \<times> int)" where
  "merge_step chunk_size chunk_overlap sep st d =
     (case st of (docs, current_doc, total_len) \<Rightarrow>
        let len = int (py_len d); sep_len = int (py_len sep) in
        if total_len + len + (if current_doc \<noteq> [] then sep_len else 0) > chunk_size
           \<and> current_doc \<noteq> []
        then
          (let docs1 = (case join_docs current_doc sep of
                          None \<Rightarrow> docs | Some doc \<Rightarrow> docs @ [doc])
           in case pop_while chunk_size chunk_overlap sep_len len total_len current_doc of
                Inl e \<Rightarrow> Inl e
              | Inr (total_len1, current1) \<Rightarrow>
                  Inr (docs1, current1 @ [d],
                       total_len1 + len + (if current1 \<noteq> [] then sep_len else 0)))
        else
          Inr (docs, current_doc @ [d],
               total_len + len + (if current_doc \<noteq> [] then sep_len else 0)))"

fun merge_loop ::
  "int \<Rightarrow> int \<Rightarrow> string \<Rightarrow> string list \<times> string list \<times> int \<Rightarrow> string list
     \<Rightarrow> exn + (string list \<times> string list \<times> int)" where
  "merge_loop chunk_size chunk_overlap sep st [] = Inr st"
| "merge_loop chunk_size chunk_overlap sep st (d # ds) =
     (case merge_step chunk_size chunk_overlap sep st d of
        Inl e \<Rightarrow> Inl e
      | Inr st1 \<Rightarrow> merge_loop chunk_size chunk_overlap sep st1 ds)"

text \<open>\<open>_merge_splits\<close>: the loop, then the last \<open>_join_docs\<close>\<close>

definition merge_splits :: "int \<Rightarrow> int \<Rightarrow> string list \<Rightarrow> string \<Rightarrow> exn + string list" where
  "merge_splits chunk_size chunk_overlap splits separator =
     (case merge_loop chunk_size chunk_overlap separator ([], [], 0) splits of
        Inl e \<Rightarrow> Inl e
      | Inr (docs, current_doc, total_len) \<Rightarrow>
          Inr (case join_docs current_doc separator of
                 None \<Rightarrow> docs | Some doc \<Rightarrow> docs @ [doc]))"

text \<open>
  The loop of \<open>_split_text\<close> over the splits. \<open>recurse\<close> is \<open>None\<close> when
  \<open>new_separators\<close> is empty, else the recursive call on them.
\<close>

function split_loop ::
  "int \<Rightarrow> int \<Rightarrow> (string \<Rightarrow> exn + string list) option \<Rightarrow> string list \<Rightarrow> string list
     \<Rightarrow> string list \<Rightarrow> exn + string list" where
  "split_loop chunk_size chunk_overlap recurse final_chunks good_splits [] =
     (if good_splits \<noteq> [] then
        (case merge_splits chunk_size chunk_overlap good_splits [] of
           Inl e \<Rightarrow> Inl e
         | Inr merged \<Rightarrow> Inr (final_chunks @ merged))
      else Inr final_chunks)"
| "split_loop chunk_size chunk_overlap recurse final_chunks good_splits (s # ss) =
     (if int (py_len s) < chunk_size
      then split_loop chunk_size chunk_overlap recurse final_chunks (good_splits @ [s]) ss
      else
        (case (if good_splits \<noteq> [] then merge_splits chunk_size chunk_overlap good_splits []
               else Inr []) of
           Inl e \<Rightarrow> Inl e
         | Inr merged \<Rightarrow>
           (case recurse of
              None \<Rightarrow>
                split_loop chunk_size chunk_overlap recurse (final_chunks @ merged @ [s]) [] ss
            | Some f \<Rightarrow>
                (case f s of
                   Inl e \<Rightarrow> Inl e
                 | Inr other_info \<Rightarrow>
                     split_loop chunk_size chunk_overlap recurse
                       (final_chunks @ merged @ other_info) [] ss))))"
  by pat_completeness auto
termination
  by (relation "measure (\<lambda>(chunk_size, chunk_overlap, recurse, final_chunks, good_splits, splits). length splits)")
     simp_all

text \<open>
  \<open>_split_text(text, separators)\<close>: the first separator that is empty or occurs in the
  text is used, and the ones after it serve for the parts that are still too long; if
  none is found the last separator is used. \<open>separators[-1]\<close> on an empty list raises.
\<close>

primrec split_text_rec :: "int \<Rightarrow> int \<Rightarrow> string list \<Rightarrow> string \<Rightarrow> exn + string list" where
  "split_text_rec chunk_size chunk_overlap [] = (\<lambda>text. Inl IndexError)"
| "split_text_rec chunk_size chunk_overlap (s # seps) =
     (\<lambda>text.
        if s = [] then
          split_loop chunk_size chunk_overlap None [] [] (split_text_with_regex text [])
        else if contains s text then
          split_loop chunk_size chunk_overlap
            (if seps = [] then None else Some (split_text_rec chunk_size chunk_overlap seps))
            [] [] (split_text_with_regex text s)
        else if seps = [] then
          split_loop chunk_size chunk_overlap None [] [] (split_text_with_regex text s)
        else split_text_rec chunk_size chunk_overlap seps text)"

definition separators :: "string list" where
  "separators = [[CHR 0x0A, CHR 0x0A], [CHR 0x0A], ''. '', ''! '', ''? '', '' '', []]"

text \<open>The constructor of the splitter checks its two sizes.\<close>

definition text_splitter_init :: "int \<Rightarrow> int \<Rightarrow> exn + unit" where
  "text_splitter_init chunk_size chunk_overlap =
     (if chunk_size \<le> 0 then Inl ValueError
      else if chunk_overlap < 0 then Inl ValueError
      else if chunk_overlap > chunk_size then Inl ValueError
      else Inr ())"

subsection \<open>The function of the source\<close>

text \<open>
  The argument \<open>content\<close>: a dictionary with the key \<open>dom_data\<close> (whose value is \<open>None\<close>
  when the extraction failed), a string, or any other object, given by its \<open>str()\<close>.
\<close>

datatype content = Content_dict "dom_data option" | Content_str string | Content_other string

definition text_parts :: "dom_data \<Rightarrow> string list" where
  "text_parts d =
     (if dd_title d \<noteq> [] then [''Title: '' @ dd_title d] else [])
     @ (if dd_meta_description d \<noteq> [] then [''Description: '' @ dd_meta_description d] else [])
     @ map (\<lambda>heading. map ascii_upper ''h1'' @ '': '' @ heading) (h1 (dd_headings d))
     @ map (\<lambda>heading. map ascii_upper ''h2'' @ '': '' @ heading) (h2 (dd_headings d))
     @ map (\<lambda>heading. map ascii_upper ''h3'' @ '': '' @ heading) (h3 (dd_headings d))
     @ dd_paragraphs d
     @ concat (map list_items (dd_lists d))"

definition content_text :: "library \<Rightarrow> content \<Rightarrow> exn + string" where
  "content_text L content =
     (case content of
        Content_dict None \<Rightarrow> Inl TypeError
      | Content_dict (Some d) \<Rightarrow> Inr (join [CHR 0x0A] (text_parts d))
      | Content_str s \<Rightarrow>
          (case html_parser L s of
             Inl e \<Rightarrow> Inl e
           | Inr soup \<Rightarrow> Inr (get_text (decompose [''script'', ''style''] soup)))
      | Content_other s \<Rightarrow> Inr s)"

text \<open>\<open>a // b\<close>\<close>

definition floordiv :: "int \<Rightarrow> int \<Rightarrow> exn + int" where
  "floordiv a b = (if b = 0 then Inl ZeroDivisionError else Inr (a div b))"

text \<open>
  \<open>create_content_chunks\<close>. The average size is computed only to be printed, but its
  division can raise, so it is part of the model.
\<close>

definition create_content_chunks :: "library \<Rightarrow> content \<Rightarrow> int \<Rightarrow> int \<Rightarrow> exn + string list" where
  "create_content_chunks L content chunk_size chunk_overlap =
     (case content_text L content of
        Inl e \<Rightarrow> Inl e
      | Inr text0 \<Rightarrow>
        (let content_text = normalize_whitespace text0 in
         case text_splitter_init chunk_size chunk_overlap of
           Inl e \<Rightarrow> Inl e
         | Inr u \<Rightarrow>
           (case split_text_rec chunk_size chunk_overlap separators content_text of
              Inl e \<Rightarrow> Inl e
            | Inr chunks \<Rightarrow>
              (case (if chunks \<noteq> []
                     then floordiv (sum_list (map (\<lambda>chunk. int (py_len chunk)) chunks))
                            (int (length chunks))
                     else Inr 0) of
                 Inl e \<Rightarrow> Inl e
               | Inr average \<Rightarrow> Inr chunks))))"

section \<open>Notions used in the statements\<close>

text \<open>
  The scheme \<open>urlsplit\<close> finds in a URL by itself (no default). A URL is absolute when it
  has one; a base URL is well formed when it parses to an \<open>http\<close> or \<open>https\<close> URL with a
  network location.
\<close>

definition url_scheme :: "string \<Rightarrow> string" where
  "url_scheme url = fst (split_scheme [] (clean_url url))"

definition is_absolute :: "string \<Rightarrow> bool" where
  "is_absolute url = (url_scheme url \<noteq> [])"

definition well_formed_base :: "urllib \<Rightarrow> string \<Rightarrow> bool" where
  "well_formed_base U base_url =
     (case urlparse U base_url [] of
        Inl e \<Rightarrow> False
      | Inr b \<Rightarrow> (scheme b = ''http'' \<or> scheme b = ''https'') \<and> netloc b \<noteq> [])"

text \<open>
  The host of a URL: the \<open>hostname\<close> property of the result of \<open>urlparse\<close>, that is
  the netloc without its user information and port, in lower case (ASCII letters).
\<close>

definition hostname :: "string \<Rightarrow> string option" where
  "hostname nl =
     (let hostinfo = (if CHR ''@'' \<in> set nl
                      then rev (takeWhile (\<lambda>c. c \<noteq> CHR ''@'') (rev nl)) else nl);
          host = (if CHR ''['' \<in> set hostinfo
                  then takeWhile (\<lambda>c. c \<noteq> CHR '']'')
                         (drop 1 (dropWhile (\<lambda>c. c \<noteq> CHR ''['') hostinfo))
                  else takeWhile (\<lambda>c. c \<noteq> CHR '':'') hostinfo)
      in if host = [] then None
         else Some (map ascii_lower (takeWhile (\<lambda>c. c \<noteq> CHR ''%'') host)
                    @ dropWhile (\<lambda>c. c \<noteq> CHR ''%'') host))"

definition url_host :: "urllib \<Rightarrow> string \<Rightarrow> string option" where
  "url_host U url = (case urlparse U url [] of Inl e \<Rightarrow> None | Inr p \<Rightarrow> hostname (netloc p))"

text \<open>
  The anchors that give a link (an \<open>href\<close> and a non-empty text), and what it is for a
  stored link or image to be the resolution of a given element.
\<close>

definition shown_anchor :: "node \<Rightarrow> bool" where
  "shown_anchor a = (has_attr a ''href'' \<and> strip (get_text (tag_contents a)) \<noteq> [])"

definition link_resolves :: "urllib \<Rightarrow> string \<Rightarrow> link \<Rightarrow> node \<Rightarrow> bool" where
  "link_resolves U base_url l a =
     (case map_of (tag_attrs a) ''href'' of
        None \<Rightarrow> False
      | Some href \<Rightarrow> urljoin U base_url href = Inr (link_url l)
                     \<and> link_text l = strip (get_text (tag_contents a)))"

definition image_resolves :: "urllib \<Rightarrow> string \<Rightarrow> image \<Rightarrow> node \<Rightarrow> bool" where
  "image_resolves U base_url i img =
     (urljoin U base_url (attr_get img ''src'' []) = Inr (img_src i)
      \<and> img_alt i = attr_get img ''alt'' [] \<and> img_title i = attr_get img ''title'' [])"

text \<open>The cell texts of a row and the non-empty rows of a table.\<close>

definition row_cells :: "node \<Rightarrow> string list" where
  "row_cells row =
     map (\<lambda>cell. strip (get_text (tag_contents cell))) (find_all [''td'', ''th''] (tag_contents row))"

definition table_rows :: "node \<Rightarrow> string list list" where
  "table_rows table = filter (\<lambda>r. r \<noteq> []) (map row_cells (find_all [''tr''] (tag_contents table)))"

text \<open>
  Python values that are strings or lists, to compare lists of different depth, and the
  value of \<open>dom_data['tables']\<close>.
\<close>

datatype pyval = PStr string | PList "pyval list"

definition tables_value :: "string list list list \<Rightarrow> pyval" where
  "tables_value ts = PList (map (\<lambda>t. PList (map (\<lambda>r. PList (map PStr r)) t)) ts)"

text \<open>
  A document has empty fields where the parsed markup has no element for them: the title
  is the default, the other fields are empty.
\<close>

definition empty_where_absent :: "library \<Rightarrow> node list \<Rightarrow> dom_data \<Rightarrow> bool" where
  "empty_where_absent L soup d =
     ((find_all [''title''] soup = [] \<longrightarrow> dd_title d = ''No title found'')
      \<and> (find_all [''meta''] soup = [] \<longrightarrow> dd_meta_description d = [])
      \<and> (find_all [''h1''] soup = [] \<longrightarrow> h1 (dd_headings d) = [])
      \<and> (find_all [''h2''] soup = [] \<longrightarrow> h2 (dd_headings d) = [])
      \<and> (find_all [''h3''] soup = [] \<longrightarrow> h3 (dd_headings d) = [])
      \<and> (find_all [''a''] soup = [] \<longrightarrow> dd_links d = [])
      \<and> (find_all [''img''] soup = [] \<longrightarrow> dd_images d = [])
      \<and> (find_all [''p''] soup = [] \<longrightarrow> dd_paragraphs d = [])
      \<and> (find_all [''ul'', ''ol''] soup = [] \<longrightarrow> dd_lists d = [])
      \<and> (find_all [''table''] soup = [] \<longrightarrow> dd_tables d = [])
      \<and> (find_all [''form''] soup = [] \<longrightarrow> dd_forms d = [])
      \<and> (re_findall L Email_pattern (get_text soup) = [] \<longrightarrow> emails (dd_contact_info d) = [])
      \<and> (re_findall L Phone_us (get_text soup) = []
           \<and> re_findall L Phone_paren (get_text soup) = []
           \<and> re_findall L Phone_international (get_text soup) = []
           \<longrightarrow> phones (dd_contact_info d) = []))"

section \<open>Example inputs\<close>

text \<open>Concrete libraries, networks and browsers on which the theorems below are run.\<close>

definition lib0 :: library where
  "lib0 = \<lparr>html_parser = (\<lambda>s. Inl (LibraryError ''no parser'')), re_findall = (\<lambda>p s. []),
           set_order = remdups,
           url_checks = \<lparr>nfkc_ok = (\<lambda>n. True), bracketed_ok = (\<lambda>h. True)\<rparr>\<rparr>"

definition browser_page :: string where
  "browser_page = ''<html><head></head><body></body></html>''"

text \<open>The server answers 200 with an empty body; the browser works.\<close>

definition world_empty_body :: world where
  "world_empty_body =
     \<lparr>requests_get = (\<lambda>u h. Inr \<lparr>status_code = 200, response_text = []\<rparr>),
      webdriver_chrome = (\<lambda>a. Inr ()), driver_execute_script = (\<lambda>s. Inr ()),
      driver_get = (\<lambda>u. Inr ()), driver_page_source = (\<lambda>u. Inr browser_page),
      driver_quit = Inr ()\<rparr>"

text \<open>The request raises; the browser works.\<close>

definition world_requests_down :: world where
  "world_requests_down =
     \<lparr>requests_get = (\<lambda>u h. Inl (LibraryError ''ConnectionError'')),
      webdriver_chrome = (\<lambda>a. Inr ()), driver_execute_script = (\<lambda>s. Inr ()),
      driver_get = (\<lambda>u. Inr ()), driver_page_source = (\<lambda>u. Inr browser_page),
      driver_quit = Inr ()\<rparr>"

text \<open>The server answers 503; the browser cannot be started.\<close>

definition world_all_down :: world where
  "world_all_down =
     \<lparr>requests_get = (\<lambda>u h. Inr \<lparr>status_code = 503, response_text = ''Service Unavailable''\<rparr>),
      webdriver_chrome = (\<lambda>a. Inl (LibraryError ''WebDriverException'')),
      driver_execute_script = (\<lambda>s. Inr ()),
      driver_get = (\<lambda>u. Inr ()), driver_page_source = (\<lambda>u. Inr browser_page),
      driver_quit = Inr ()\<rparr>"

definition state0 :: run_state where
  "state0 = \<lparr>calls = [], random_draws = []\<rparr>"

text \<open>
  Pages and the trees \<open>html.parser\<close> builds for them; \<open>lib_example\<close> parses these pages
  and no other, and finds the contact patterns of the second page in its text.
\<close>

definition table_markup :: string where
  "table_markup = ''<table><tr><td>A</td><td>B</td></tr></table>''"

definition table_soup :: "node list" where
  "table_soup =
     [Tag ''table'' []
        [Tag ''tr'' [] [Tag ''td'' [] [NavigableString ''A''],
                        Tag ''td'' [] [NavigableString ''B'']]]]"

definition page_markup :: string where
  "page_markup = ''<html><head><title>Shop</title></head><body><a href=/about>About</a><a href=https://other.org/x>Other</a><img src=logo.png><form action=/submit><input name=q></form><p>Mail a@b.co or a@b.co now</p><p>Call 555-123-4567 or 555-123-4567 today</p></body></html>''"

definition page_soup :: "node list" where
  "page_soup =
     [Tag ''html'' []
        [Tag ''head'' [] [Tag ''title'' [] [NavigableString ''Shop'']],
         Tag ''body'' []
           [Tag ''a'' [(''href'', ''/about'')] [NavigableString ''About''],
            Tag ''a'' [(''href'', ''https://other.org/x'')] [NavigableString ''Other''],
            Tag ''img'' [(''src'', ''logo.png'')] [],
            Tag ''form'' [(''action'', ''/submit'')] [Tag ''input'' [(''name'', ''q'')] []],
            Tag ''p'' [] [NavigableString ''Mail a@b.co or a@b.co now''],
            Tag ''p'' [] [NavigableString ''Call 555-123-4567 or 555-123-4567 today'']]]]"

text \<open>A page whose \<open>title\<close> element is empty, and a page with a link to the same host on a port.\<close>

definition untitled_markup :: string where
  "untitled_markup = ''<title></title><p>Hello</p>''"

definition untitled_soup :: "node list" where
  "untitled_soup = [Tag ''title'' [] [], Tag ''p'' [] [NavigableString ''Hello'']]"

definition port_markup :: string where
  "port_markup = ''<a href=https://example.com:443/z>Port</a><a href=https://user@example.com/>User</a>''"

definition port_soup :: "node list" where
  "port_soup =
     [Tag ''a'' [(''href'', ''https://example.com:443/z'')] [NavigableString ''Port''],
      Tag ''a'' [(''href'', ''https://user@example.com/'')] [NavigableString ''User'']]"

definition site_url :: string where
  "site_url = ''https://example.com/''"

definition page_text :: string where
  "page_text = ''ShopAboutOtherMail a@b.co or a@b.co nowCall 555-123-4567 or 555-123-4567 today''"

definition lib_example :: library where
  "lib_example =
     \<lparr>html_parser = (\<lambda>s. if s = [] then Inr []
                           else if s = table_markup then Inr table_soup
                           else if s = page_markup then Inr page_soup
                           else if s = untitled_markup then Inr untitled_soup
                           else if s = port_markup then Inr port_soup
                           else if s = ''hello'' then Inr [NavigableString ''hello'']
                           else if s = ''<title></title>'' then Inr [Tag ''title'' [] []]
                           else Inl (LibraryError ''not an example'')),
      re_findall = (\<lambda>p s. if s = page_text
                            then (case p of
                                    Email_pattern \<Rightarrow> [''a@b.co'', ''a@b.co'']
                                  | Phone_us \<Rightarrow> [''555-123-4567'', ''555-123-4567'']
                                  | Phone_paren \<Rightarrow> []
                                  | Phone_international \<Rightarrow> [])
                            else []),
      set_order = remdups,
      url_checks = \<lparr>nfkc_ok = (\<lambda>n. True), bracketed_ok = (\<lambda>h. True)\<rparr>\<rparr>"

definition page_url :: string where
  "page_url = ''https://example.com/shop/index.html''"


definition empty_contact :: contact_info where
  "empty_contact = \<lparr>emails = [], phones = [], addresses = []\<rparr>"

definition table_doc :: dom_data where
  "table_doc =
     \<lparr>dd_title = ''No title found'', dd_meta_description = [],
      dd_headings = \<lparr>h1 = [], h2 = [], h3 = []\<rparr>, dd_links = [],
      dd_images = [], dd_paragraphs = [], dd_lists = [],
      dd_tables = [[[''A'', ''B'']]], dd_forms = [],
      dd_contact_info = empty_contact\<rparr>"

definition plain_doc :: dom_data where
  "plain_doc =
     \<lparr>dd_title = ''No title found'', dd_meta_description = [],
      dd_headings = \<lparr>h1 = [], h2 = [], h3 = []\<rparr>, dd_links = [],
      dd_images = [], dd_paragraphs = [], dd_lists = [],
      dd_tables = [], dd_forms = [],
      dd_contact_info = empty_contact\<rparr>"

definition page_doc :: dom_data where
  "page_doc =
     \<lparr>dd_title = ''Shop'', dd_meta_description = [],
      dd_headings = \<lparr>h1 = [], h2 = [], h3 = []\<rparr>,
      dd_links =
        [\<lparr>link_text = ''About'', link_url = ''https://example.com/about'',
          link_is_external = False\<rparr>,
         \<lparr>link_text = ''Other'', link_url = ''https://other.org/x'',
          link_is_external = True\<rparr>],
      dd_images =
        [\<lparr>img_src = ''https://example.com/shop/logo.png'', img_alt = [], img_title = []\<rparr>],
      dd_paragraphs = [''Mail a@b.co or a@b.co now'', ''Call 555-123-4567 or 555-123-4567 today''],
      dd_lists = [], dd_tables = [],
      dd_forms =
        [\<lparr>form_action = ''/submit'', form_method = ''get'',
          form_inputs =
            [\<lparr>input_type = ''input'', input_name = ''q'',
              input_placeholder = [], input_required = False\<rparr>]\<rparr>],
      dd_contact_info =
        \<lparr>emails = [''a@b.co''], phones = [''555-123-4567''], addresses = []\<rparr>\<rparr>"

definition port_doc :: dom_data where
  "port_doc =
     \<lparr>dd_title = ''No title found'', dd_meta_description = [],
      dd_headings = \<lparr>h1 = [], h2 = [], h3 = []\<rparr>,
      dd_links =
        [\<lparr>link_text = ''Port'', link_url = ''https://example.com:443/z'',
          link_is_external = True\<rparr>,
         \<lparr>link_text = ''User'', link_url = ''https://user@example.com/'',
          link_is_external = True\<rparr>],
      dd_images = [], dd_paragraphs = [], dd_lists = [],
      dd_tables = [], dd_forms = [],
      dd_contact_info = empty_contact\<rparr>"

section \<open>urljoin gives absolute URLs\<close>

lemma clean_scheme_simps:
  "clean_scheme [] = []" "clean_scheme ''http'' = ''http''" "clean_scheme ''https'' = ''https''"
  by (simp_all add: clean_scheme_def c0_or_space_def unsafe_byte_def)

lemma urlsplit_scheme:
  "urlsplit U url d = Inr p \<Longrightarrow> scheme p = fst (split_scheme (clean_scheme d) (clean_url url))"
  unfolding urlsplit_def Let_def
  by (auto split: prod.splits if_splits)

lemma urlparse_scheme:
  "urlparse U url d = Inr p \<Longrightarrow> scheme p = fst (split_scheme (clean_scheme d) (clean_url url))"
  unfolding urlparse_def
  by (auto split: sum.splits if_splits prod.splits dest: urlsplit_scheme)

lemma split_scheme_fst:
  "fst (split_scheme d u) = (if fst (split_scheme [] u) = [] then d else fst (split_scheme [] u))"
  by (auto simp: split_scheme_def Let_def)

lemma urlunsplit_prefix:
  "s \<noteq> [] \<Longrightarrow> \<exists>rest. urlunsplit s nl p q f = s @ '':'' @ rest"
  by (simp add: urlunsplit_def Let_def)

lemma is_absolute_http: "is_absolute (''http'' @ '':'' @ rest)"
  by (simp add: is_absolute_def url_scheme_def clean_url_def c0_or_space_def unsafe_byte_def
      split_scheme_def Let_def ascii_alpha_def scheme_char_def)

lemma is_absolute_https: "is_absolute (''https'' @ '':'' @ rest)"
  by (simp add: is_absolute_def url_scheme_def clean_url_def c0_or_space_def unsafe_byte_def
      split_scheme_def Let_def ascii_alpha_def scheme_char_def)

lemma is_absolute_urlunparse:
  "scheme r = ''http'' \<or> scheme r = ''https'' \<Longrightarrow> is_absolute (urlunparse r)"
  unfolding urlunparse_def
  using urlunsplit_prefix [of "scheme r" "netloc r"
      "if params r \<noteq> [] then path r @ '';'' @ params r else path r" "query r" "fragment r"]
    is_absolute_http is_absolute_https
  by auto

lemma well_formed_base_absolute:
  "well_formed_base U base_url \<Longrightarrow> is_absolute base_url"
  unfolding well_formed_base_def is_absolute_def url_scheme_def
  by (auto split: sum.splits dest!: urlparse_scheme simp: clean_scheme_simps)

lemma urljoin_absolute:
  assumes wf: "well_formed_base U base_url" and j: "urljoin U base_url url = Inr r"
  shows "is_absolute r"
proof -
  obtain b where b: "urlparse U base_url [] = Inr b"
    and sb: "scheme b = ''http'' \<or> scheme b = ''https''"
    using wf by (auto simp: well_formed_base_def split: sum.splits)
  have base_ne: "base_url \<noteq> []"
    using well_formed_base_absolute [OF wf]
    by (auto simp: is_absolute_def url_scheme_def clean_url_def split_scheme_def)
  show ?thesis
  proof (cases "url = []")
    case True
    then show ?thesis
      using j base_ne well_formed_base_absolute [OF wf] by (simp add: urljoin_def)
  next
    case False
    then obtain u where u: "urlparse U url (scheme b) = Inr u"
      using j b base_ne by (auto simp: urljoin_def split: sum.splits)
    have su: "scheme u = (if url_scheme url = [] then scheme b else url_scheme url)"
      using urlparse_scheme [OF u] sb split_scheme_fst [of "scheme b" "clean_url url"]
      by (auto simp: clean_scheme_simps url_scheme_def)
    show ?thesis
    proof (cases "scheme u = scheme b")
      case True
      have rel: "scheme u \<in> set uses_relative"
        using True sb by (auto simp: uses_relative_def)
      have "\<exists>r'. r = urlunparse r' \<and> scheme r' = scheme u"
        using j b u False base_ne True rel
        by (auto simp: urljoin_def Let_def split: if_splits)
      then show ?thesis
        using is_absolute_urlunparse True sb by auto
    next
      case F: False
      then have "r = url"
        using j b u False base_ne by (auto simp: urljoin_def)
      moreover have "url_scheme url \<noteq> []"
        using su F by (auto split: if_splits)
      ultimately show ?thesis by (simp add: is_absolute_def)
    qed
  qed
qed

section \<open>The example pages\<close>

lemma table_parse: "parse_dom_content lib_example table_markup page_url = Inr (Some table_doc)"
  by code_simp

lemma plain_parse: "parse_dom_content lib_example ''hello'' page_url = Inr (Some plain_doc)"
  by code_simp

lemma page_parse: "parse_dom_content lib_example page_markup page_url = Inr (Some page_doc)"
  by code_simp

lemma empty_title_parse: "parse_dom_content lib_example ''<title></title>'' page_url = Inr None"
  by code_simp

lemma page_url_well_formed: "well_formed_base (url_checks lib_example) page_url"
  by code_simp

lemma plain_html_parser: "html_parser lib_example ''hello'' = Inr [NavigableString ''hello'']"
  by code_simp

lemma table_html_parser: "html_parser lib_example table_markup = Inr table_soup"
  by code_simp

lemma page_html_parser: "html_parser lib_example page_markup = Inr page_soup"
  by code_simp

lemma empty_html_parser: "html_parser lib_example [] = Inr []"
  by code_simp

text \<open>
  Two inputs on which one element makes the whole extraction return \<open>None\<close>. A \<open>title\<close>
  element without a single string child has \<open>.string = None\<close>, and \<open>strip\<close> on it raises
  inside the \<open>try\<close>. A link whose \<open>href\<close> has an unclosed bracket makes \<open>urljoin\<close> raise.
\<close>

lemma bad_href_aborts:
  "extract_links (url_checks lib_example) page_url
     [Tag ''a'' [(''href'', ''http://['')] [NavigableString ''x'']] = Inl ValueError"
  by code_simp

section \<open>The extraction loops\<close>

lemma rows_loop_eq: "rows_loop acc rows = acc @ filter (\<lambda>r. r \<noteq> []) (map row_cells rows)"
  by (induction rows arbitrary: acc) (simp_all add: row_cells_def Let_def)

lemma tables_loop_eq: "tables_loop acc ts = acc @ filter (\<lambda>t. t \<noteq> []) (map table_rows ts)"
  by (induction ts arbitrary: acc) (simp_all add: table_rows_def rows_loop_eq Let_def)

lemma forms_loop_action:
  "map form_action (forms_loop acc fs) = map form_action acc @ map (\<lambda>f. attr_get f ''action'' []) fs"
  by (induction fs arbitrary: acc) simp_all

lemma forms_loop_Nil: "forms_loop acc [] = acc"
  by simp

lemma links_loop_sound:
  "links_loop U base_url acc as = Inr ls \<Longrightarrow> l \<in> set ls \<Longrightarrow>
     l \<in> set acc \<or>
     (\<exists>href pu pb. urljoin U base_url href = Inr (link_url l)
        \<and> urlparse U (link_url l) [] = Inr pu \<and> urlparse U base_url [] = Inr pb
        \<and> link_is_external l = (netloc pu \<noteq> netloc pb) \<and> link_text l \<noteq> [])"
proof (induction as arbitrary: acc)
  case Nil
  then show ?case by simp
next
  case (Cons a as)
  show ?case
  proof (cases "map_of (tag_attrs a) ''href''")
    case None
    then show ?thesis using Cons.prems by simp
  next
    case (Some href)
    show ?thesis
    proof (cases "urljoin U base_url href")
      case (Inl e)
      then show ?thesis using Cons.prems Some by simp
    next
      case (Inr url)
      show ?thesis
      proof (cases "strip (get_text (tag_contents a)) \<noteq> []")
        case False
        then have "links_loop U base_url acc as = Inr ls"
          using Cons.prems(1) Some Inr by (simp add: Let_def)
        then show ?thesis using Cons.IH Cons.prems(2) by blast
      next
        case True
        then obtain pu pb where pu: "urlparse U url [] = Inr pu"
          and pb: "urlparse U base_url [] = Inr pb"
          and rec: "links_loop U base_url
                      (acc @ [\<lparr>link_text = strip (get_text (tag_contents a)), link_url = url,
                                link_is_external = (netloc pu \<noteq> netloc pb)\<rparr>]) as = Inr ls"
          using Cons.prems(1) Some Inr by (auto simp: Let_def split: sum.splits)
        from Cons.IH [OF rec Cons.prems(2)] show ?thesis
          using Inr pu pb True by auto
      qed
    qed
  qed
qed

lemma images_loop_sound:
  "images_loop U base_url acc imgs = Inr ims \<Longrightarrow> i \<in> set ims \<Longrightarrow>
     i \<in> set acc \<or> (\<exists>src. src \<noteq> [] \<and> urljoin U base_url src = Inr (img_src i))"
proof (induction imgs arbitrary: acc)
  case Nil
  then show ?case by simp
next
  case (Cons img imgs)
  show ?case
  proof (cases "attr_get img ''src'' [] \<noteq> []")
    case False
    then have "images_loop U base_url acc imgs = Inr ims"
      using Cons.prems(1) by (simp add: Let_def)
    then show ?thesis using Cons.IH Cons.prems(2) by blast
  next
    case True
    then obtain u where u: "urljoin U base_url (attr_get img ''src'' []) = Inr u"
      and rec: "images_loop U base_url
                  (acc @ [\<lparr>img_src = u, img_alt = attr_get img ''alt'' [],
                            img_title = attr_get img ''title'' []\<rparr>]) imgs = Inr ims"
      using Cons.prems(1) by (auto simp: Let_def split: sum.splits)
    from Cons.IH [OF rec Cons.prems(2)] show ?thesis
      using u True by auto
  qed
qed

lemma parse_dom_content_SomeD:
  assumes "parse_dom_content L html base_url = Inr (Some d)"
  obtains soup t ls ims where
    "html \<noteq> []" "\<not> startswith html error_marker"
    "html_parser L html = Inr soup" "extract_title soup = Inr t"
    "extract_links (url_checks L) base_url soup = Inr ls"
    "extract_images (url_checks L) base_url soup = Inr ims"
    "d = \<lparr>dd_title = t,
          dd_meta_description = extract_meta_description soup,
          dd_headings = \<lparr>h1 = heading_texts ''h1'' soup, h2 = heading_texts ''h2'' soup,
                          h3 = heading_texts ''h3'' soup\<rparr>,
          dd_links = ls, dd_images = ims,
          dd_paragraphs = extract_paragraphs soup,
          dd_lists = lists_loop [] (find_all [''ul'', ''ol''] soup),
          dd_tables = tables_loop [] (find_all [''table''] soup),
          dd_forms = forms_loop [] (find_all [''form''] soup),
          dd_contact_info = extract_contact_info L soup\<rparr>"
  using assms
  unfolding parse_dom_content_def parse_dom_body_def
  by (auto split: if_splits sum.splits)

lemma distinct_list_of_set: "distinct (list_of_set L xs)"
  by (simp add: list_of_set_def Let_def)

lemma set_list_of_set: "set (list_of_set L xs) = set xs"
  by (simp add: list_of_set_def Let_def)

lemma list_of_set_Nil: "list_of_set L [] = []"
  using set_list_of_set [of L "[]"] by simp

lemma extract_empty_where_absent:
  assumes "extract_title soup = Inr t"
    and "extract_links U base_url soup = Inr ls"
    and "extract_images U base_url soup = Inr ims"
  shows "empty_where_absent L soup
     \<lparr>dd_title = t,
      dd_meta_description = extract_meta_description soup,
      dd_headings = \<lparr>h1 = heading_texts ''h1'' soup, h2 = heading_texts ''h2'' soup,
                      h3 = heading_texts ''h3'' soup\<rparr>,
      dd_links = ls, dd_images = ims,
      dd_paragraphs = extract_paragraphs soup,
      dd_lists = lists_loop [] (find_all [''ul'', ''ol''] soup),
      dd_tables = tables_loop [] (find_all [''table''] soup),
      dd_forms = forms_loop [] (find_all [''form''] soup),
      dd_contact_info = extract_contact_info L soup\<rparr>"
  using assms
  by (auto simp: empty_where_absent_def extract_title_def extract_meta_description_def
      heading_texts_def extract_links_def extract_images_def extract_paragraphs_def
      extract_contact_info_def list_of_set_Nil Let_def)


section \<open>Properties of the extraction\<close>

text \<open>
  What holds of every input: \<open>parse_dom_content\<close> never raises; it returns \<open>None\<close> for the
  empty markup, for markup that begins with the error marker, and when the parser or a
  later step of the body raises; every document returned has its fields empty where the
  parsed markup has no element for them.
\<close>

lemma parse_dom_content_outcomes:
  "(\<exists>r. parse_dom_content L html base_url = Inr r)
   \<and> (html = [] \<or> startswith html error_marker \<longrightarrow> parse_dom_content L html base_url = Inr None)
   \<and> (\<forall>e. html_parser L html = Inl e \<longrightarrow> parse_dom_content L html base_url = Inr None)
   \<and> (\<forall>e. parse_dom_body L html base_url = Inl e \<longrightarrow> parse_dom_content L html base_url = Inr None)
   \<and> (\<forall>soup. html \<noteq> [] \<and> \<not> startswith html error_marker \<and> html_parser L html = Inr soup
          \<and> find_all [''title''] soup = [] \<and> find_all [''a''] soup = []
          \<and> find_all [''img''] soup = []
        \<longrightarrow> (\<exists>d. parse_dom_content L html base_url = Inr (Some d)))
   \<and> (\<forall>d. parse_dom_content L html base_url = Inr (Some d)
        \<longrightarrow> (\<exists>soup. html_parser L html = Inr soup \<and> empty_where_absent L soup d))"
proof (intro conjI allI impI)
  show "\<exists>r. parse_dom_content L html base_url = Inr r"
    by (simp add: parse_dom_content_def split: sum.splits)
next
  assume "html = [] \<or> startswith html error_marker"
  then show "parse_dom_content L html base_url = Inr None"
    by (auto simp: parse_dom_content_def)
next
  fix e assume "html_parser L html = Inl e"
  then show "parse_dom_content L html base_url = Inr None"
    by (simp add: parse_dom_content_def parse_dom_body_def)
next
  fix e assume "parse_dom_body L html base_url = Inl e"
  then show "parse_dom_content L html base_url = Inr None"
    by (simp add: parse_dom_content_def)
next
  fix soup
  assume "html \<noteq> [] \<and> \<not> startswith html error_marker \<and> html_parser L html = Inr soup
          \<and> find_all [''title''] soup = [] \<and> find_all [''a''] soup = []
          \<and> find_all [''img''] soup = []"
  then show "\<exists>d. parse_dom_content L html base_url = Inr (Some d)"
    by (simp add: parse_dom_content_def parse_dom_body_def extract_title_def
        extract_links_def extract_images_def)
next
  fix d assume "parse_dom_content L html base_url = Inr (Some d)"
  then show "\<exists>soup. html_parser L html = Inr soup \<and> empty_where_absent L soup d"
    by (elim parse_dom_content_SomeD) (auto intro: extract_empty_where_absent)
qed

lemma untitled_parser: "html_parser lib_example untitled_markup = Inr untitled_soup"
  by code_simp

lemma untitled_title: "find_all [''title''] untitled_soup = [Tag ''title'' [] []]"
  by code_simp

text \<open>
  C2 (where the code departs from it). The claim promises a document with empty fields
  for malformed or partial markup. But when the parsed markup has a \<open>title\<close> element
  without a single string child, \<open>soup.title\<close> is there, \<open>soup.title.string\<close> is \<open>None\<close>, and
  \<open>.strip()\<close> raises inside the \<open>try\<close>: \<open>parse_dom_content\<close> returns \<open>None\<close> and every
  other field of the page is lost with the title.
\<close>

theorem parse_dom_content_title_without_string:
  assumes "html_parser L html = Inr soup"
    and "find_all [''title''] soup = t # ts"
    and "dot_string (tag_contents t) = None"
  shows "extract_title soup = Inl AttributeError
       \<and> parse_dom_content L html base_url = Inr None"
  using assms
  by (simp add: extract_title_def parse_dom_content_def parse_dom_body_def)

text \<open>
  The page \<open><title></title><p>Hello</p>\<close>: it has a paragraph to extract, and no
  document is returned.
\<close>

theorem parse_dom_content_title_without_string_witness:
  "extract_paragraphs untitled_soup = [''Hello'']
   \<and> extract_title untitled_soup = Inl AttributeError
   \<and> parse_dom_content lib_example untitled_markup page_url = Inr None"
proof -
  have "extract_paragraphs untitled_soup = [''Hello'']"
    by code_simp
  then show ?thesis
    using parse_dom_content_title_without_string
      [OF untitled_parser untitled_title, of page_url]
    by simp
qed

section \<open>Stored URLs\<close>

lemma list_all2_set1: "list_all2 P xs ys \<Longrightarrow> x \<in> set xs \<Longrightarrow> \<exists>y \<in> set ys. P x y"
  by (induction rule: list_all2_induct) auto

lemma links_loop_exact:
  "links_loop U base_url acc as = Inr ls \<Longrightarrow>
     \<exists>new. ls = acc @ new
       \<and> list_all2 (link_resolves U base_url) new
            (filter (\<lambda>a. strip (get_text (tag_contents a)) \<noteq> []) as)"
proof (induction as arbitrary: acc)
  case Nil
  then show ?case by simp
next
  case (Cons a as)
  show ?case
  proof (cases "map_of (tag_attrs a) ''href''")
    case None
    then show ?thesis using Cons.prems by simp
  next
    case (Some href)
    show ?thesis
    proof (cases "urljoin U base_url href")
      case (Inl e)
      then show ?thesis using Cons.prems Some by simp
    next
      case (Inr url)
      show ?thesis
      proof (cases "strip (get_text (tag_contents a)) \<noteq> []")
        case False
        then have "links_loop U base_url acc as = Inr ls"
          using Cons.prems Some Inr by (simp add: Let_def)
        then show ?thesis using Cons.IH False by simp
      next
        case True
        then obtain pu pb where pu: "urlparse U url [] = Inr pu"
          and pb: "urlparse U base_url [] = Inr pb"
          and rec: "links_loop U base_url
                  (acc @ [\<lparr>link_text = strip (get_text (tag_contents a)), link_url = url,
                            link_is_external = (netloc pu \<noteq> netloc pb)\<rparr>]) as = Inr ls"
          using Cons.prems Some Inr by (auto simp: Let_def split: sum.splits)
        from Cons.IH [OF rec] obtain new where
          new: "ls = (acc @ [\<lparr>link_text = strip (get_text (tag_contents a)), link_url = url,
                             link_is_external = (netloc pu \<noteq> netloc pb)\<rparr>]) @ new"
          and all: "list_all2 (link_resolves U base_url) new
                      (filter (\<lambda>a. strip (get_text (tag_contents a)) \<noteq> []) as)"
          by blast
        have "link_resolves U base_url
                \<lparr>link_text = strip (get_text (tag_contents a)), link_url = url,
                 link_is_external = (netloc pu \<noteq> netloc pb)\<rparr> a"
          using Some Inr by (simp add: link_resolves_def)
        then show ?thesis
          using new all True by simp
      qed
    qed
  qed
qed

lemma images_loop_exact:
  "images_loop U base_url acc imgs = Inr ims \<Longrightarrow>
     \<exists>new. ims = acc @ new
       \<and> list_all2 (image_resolves U base_url) new
            (filter (\<lambda>img. attr_get img ''src'' [] \<noteq> []) imgs)"
proof (induction imgs arbitrary: acc)
  case Nil
  then show ?case by simp
next
  case (Cons img imgs)
  show ?case
  proof (cases "attr_get img ''src'' [] \<noteq> []")
    case False
    then have "images_loop U base_url acc imgs = Inr ims"
      using Cons.prems by (simp add: Let_def)
    then show ?thesis using Cons.IH False by simp
  next
    case True
    then obtain u where u: "urljoin U base_url (attr_get img ''src'' []) = Inr u"
      and rec: "images_loop U base_url
                  (acc @ [\<lparr>img_src = u, img_alt = attr_get img ''alt'' [],
                            img_title = attr_get img ''title'' []\<rparr>]) imgs = Inr ims"
      using Cons.prems by (auto simp: Let_def split: sum.splits)
    from Cons.IH [OF rec] obtain new where
      new: "ims = (acc @ [\<lparr>img_src = u, img_alt = attr_get img ''alt'' [],
                           img_title = attr_get img ''title'' []\<rparr>]) @ new"
      and all: "list_all2 (image_resolves U base_url) new
                  (filter (\<lambda>img. attr_get img ''src'' [] \<noteq> []) imgs)"
      by blast
    have "image_resolves U base_url
            \<lparr>img_src = u, img_alt = attr_get img ''alt'' [],
             img_title = attr_get img ''title'' []\<rparr> img"
      using u by (simp add: image_resolves_def)
    then show ?thesis
      using new all True by simp
  qed
qed

lemma extract_links_exact:
  assumes "extract_links U base_url soup = Inr ls"
  shows "list_all2 (link_resolves U base_url) ls (filter shown_anchor (find_all [''a''] soup))"
proof -
  have "filter (\<lambda>a. strip (get_text (tag_contents a)) \<noteq> [])
          (filter (\<lambda>a. has_attr a ''href'') (find_all [''a''] soup))
        = filter shown_anchor (find_all [''a''] soup)"
    by (simp add: shown_anchor_def [abs_def] conj_commute)
  then show ?thesis
    using links_loop_exact [OF assms [unfolded extract_links_def]] by simp
qed

lemma extract_images_exact:
  assumes "extract_images U base_url soup = Inr ims"
  shows "list_all2 (image_resolves U base_url) ims
           (filter (\<lambda>img. attr_get img ''src'' [] \<noteq> []) (find_all [''img''] soup))"
  using images_loop_exact [OF assms [unfolded extract_images_def]] by simp

text \<open>
  C3 (as amended). For a well-formed base URL, the links stored in the document are, one
  for one and in document order, the anchors that have an \<open>href\<close> and a non-empty text, and
  the URL of each is \<open>urljoin(base_url, href)\<close> for the \<open>href\<close> of its own anchor; the
  images stored are, one for one and in order, the \<open>img\<close> elements with a non-empty \<open>src\<close>,
  and the source of each is \<open>urljoin(base_url, src)\<close> for its own \<open>src\<close>; all these URLs are
  absolute. The \<open>action\<close> of a form is stored as the attribute is written (the empty
  string when absent), not resolved.
\<close>

theorem stored_urls_resolved:
  assumes "parse_dom_content L html base_url = Inr (Some d)"
    and "well_formed_base (url_checks L) base_url"
  shows "\<exists>soup. html_parser L html = Inr soup
       \<and> list_all2 (link_resolves (url_checks L) base_url) (dd_links d)
            (filter shown_anchor (find_all [''a''] soup))
       \<and> list_all2 (image_resolves (url_checks L) base_url) (dd_images d)
            (filter (\<lambda>img. attr_get img ''src'' [] \<noteq> []) (find_all [''img''] soup))
       \<and> (\<forall>l \<in> set (dd_links d). is_absolute (link_url l))
       \<and> (\<forall>i \<in> set (dd_images d). is_absolute (img_src i))
       \<and> map form_action (dd_forms d)
            = map (\<lambda>f. attr_get f ''action'' []) (find_all [''form''] soup)"
proof -
  from assms(1) obtain soup ls ims where
    soup: "html_parser L html = Inr soup"
    and ls: "extract_links (url_checks L) base_url soup = Inr ls"
    and ims: "extract_images (url_checks L) base_url soup = Inr ims"
    and d: "dd_links d = ls" "dd_images d = ims"
           "dd_forms d = forms_loop [] (find_all [''form''] soup)"
    by (elim parse_dom_content_SomeD) simp
  note la = extract_links_exact [OF ls] and ia = extract_images_exact [OF ims]
  have links: "is_absolute (link_url l)" if "l \<in> set ls" for l
  proof -
    from list_all2_set1 [OF la that] obtain a where
      "link_resolves (url_checks L) base_url l a" by blast
    then obtain href where "urljoin (url_checks L) base_url href = Inr (link_url l)"
      by (auto simp: link_resolves_def split: option.splits)
    then show ?thesis by (rule urljoin_absolute [OF assms(2)])
  qed
  have images: "is_absolute (img_src i)" if "i \<in> set ims" for i
  proof -
    from list_all2_set1 [OF ia that] obtain img where
      "image_resolves (url_checks L) base_url i img" by blast
    then have "urljoin (url_checks L) base_url (attr_get img ''src'' []) = Inr (img_src i)"
      by (simp add: image_resolves_def)
    then show ?thesis by (rule urljoin_absolute [OF assms(2)])
  qed
  show ?thesis
    using soup la ia links images d forms_loop_action [of "[]"] by auto
qed

text \<open>The links and the image of the example page.\<close>

theorem stored_urls_resolved_witness:
  "is_absolute ''https://example.com/about'' \<and> is_absolute ''https://other.org/x''
   \<and> is_absolute ''https://example.com/shop/logo.png''
   \<and> list_all2 (link_resolves (url_checks lib_example) page_url) (dd_links page_doc)
        (filter shown_anchor (find_all [''a''] page_soup))"
  using stored_urls_resolved [OF page_parse page_url_well_formed] page_html_parser
  by (auto simp: page_doc_def)

text \<open>
  Where the claim as first stated fails: the form of the example page has the relative
  action \<open>/submit\<close>, and that is what the document stores.
\<close>

theorem form_action_counterexample:
  "parse_dom_content lib_example page_markup page_url = Inr (Some page_doc)
   \<and> well_formed_base (url_checks lib_example) page_url
   \<and> map form_action (dd_forms page_doc) = [''/submit'']
   \<and> \<not> is_absolute ''/submit''"
proof -
  have "\<not> is_absolute ''/submit''" by code_simp
  moreover have "map form_action (dd_forms page_doc) = [''/submit'']"
    by (simp add: page_doc_def)
  ultimately show ?thesis
    using page_parse page_url_well_formed by simp
qed

section \<open>External links\<close>

text \<open>
  C4 (as amended). For every link of a document, \<open>is_external\<close> is true if and only if the
  \<open>netloc\<close> of the stored (resolved) link URL differs from the \<open>netloc\<close> of the base URL,
  where the netloc is the authority as \<open>urlparse\<close> gives it (user information, host and
  port, as written) and is compared as a string; both URLs do parse.
\<close>

theorem link_is_external_iff_netloc_differs:
  assumes "parse_dom_content L html base_url = Inr (Some d)"
    and "l \<in> set (dd_links d)"
  shows "\<exists>pu pb. urlparse (url_checks L) (link_url l) [] = Inr pu
           \<and> urlparse (url_checks L) base_url [] = Inr pb
           \<and> link_is_external l = (netloc pu \<noteq> netloc pb)"
proof -
  from assms(1) obtain soup ls where
    ls: "extract_links (url_checks L) base_url soup = Inr ls" and d: "dd_links d = ls"
    by (elim parse_dom_content_SomeD) simp
  show ?thesis
    using links_loop_sound [OF ls [unfolded extract_links_def], of l] assms(2) d by auto
qed

text \<open>The external link of the example page.\<close>

theorem link_is_external_iff_netloc_differs_witness:
  "\<exists>pu pb. urlparse (url_checks lib_example) ''https://other.org/x'' [] = Inr pu
      \<and> urlparse (url_checks lib_example) page_url [] = Inr pb
      \<and> True = (netloc pu \<noteq> netloc pb)"
  using link_is_external_iff_netloc_differs [OF page_parse, of "\<lparr>link_text = ''Other'', link_url = ''https://other.org/x'',
                                  link_is_external = True\<rparr>"]
  by (simp add: page_doc_def)

text \<open>
  Where the claim as first stated fails: two links to the host of the base URL, one with
  a port and one with user information, are stored as external.
\<close>

lemma port_parse: "parse_dom_content lib_example port_markup site_url = Inr (Some port_doc)"
  by code_simp

theorem link_same_host_counterexample:
  "parse_dom_content lib_example port_markup site_url = Inr (Some port_doc)
   \<and> map link_is_external (dd_links port_doc) = [True, True]
   \<and> map (\<lambda>l. url_host (url_checks lib_example) (link_url l)) (dd_links port_doc)
       = [Some ''example.com'', Some ''example.com'']
   \<and> url_host (url_checks lib_example) site_url = Some ''example.com''"
proof -
  have "map (\<lambda>l. url_host (url_checks lib_example) (link_url l)) (dd_links port_doc)
          = [Some ''example.com'', Some ''example.com'']"
    by code_simp
  moreover have "url_host (url_checks lib_example) site_url = Some ''example.com''"
    by code_simp
  moreover have "map link_is_external (dd_links port_doc) = [True, True]"
    by (simp add: port_doc_def)
  ultimately show ?thesis
    using port_parse by simp
qed

section \<open>Contact information, tables\<close>

text \<open>
  C7. In every document returned, the emails and the phones of \<open>contact_info\<close> have no
  repeated value, and they hold exactly the values the patterns match in the text of the
  page (for the phones, the matches of the three patterns together).
\<close>

theorem contact_info_distinct:
  assumes "parse_dom_content L html base_url = Inr (Some d)"
  shows "distinct (emails (dd_contact_info d)) \<and> distinct (phones (dd_contact_info d))
       \<and> (\<exists>soup. html_parser L html = Inr soup
            \<and> set (emails (dd_contact_info d)) = set (re_findall L Email_pattern (get_text soup))
            \<and> set (phones (dd_contact_info d))
                = set (re_findall L Phone_us (get_text soup))
                  \<union> set (re_findall L Phone_paren (get_text soup))
                  \<union> set (re_findall L Phone_international (get_text soup)))"
proof -
  from assms obtain soup where
    soup: "html_parser L html = Inr soup"
    and d: "dd_contact_info d = extract_contact_info L soup"
    by (elim parse_dom_content_SomeD) simp
  show ?thesis
    using soup d
    by (auto simp: extract_contact_info_def Let_def distinct_list_of_set set_list_of_set)
qed

text \<open>The example page has each address twice in its text and once in the document.\<close>

theorem contact_info_distinct_witness:
  "re_findall lib_example Email_pattern (get_text page_soup) = [''a@b.co'', ''a@b.co'']
   \<and> emails (dd_contact_info page_doc) = [''a@b.co'']
   \<and> distinct (emails (dd_contact_info page_doc))
   \<and> distinct (phones (dd_contact_info page_doc))"
proof -
  have "re_findall lib_example Email_pattern (get_text page_soup) = [''a@b.co'', ''a@b.co'']"
    by code_simp
  then show ?thesis
    using contact_info_distinct [OF page_parse] by (simp add: page_doc_def)
qed

text \<open>
  C9 (as amended). The \<open>tables\<close> of a document has one entry for each \<open>table\<close> element that
  has at least one non-empty row, in document order; the entry is the list of the rows of
  that table that have at least one cell, each row being the list of the stripped texts of
  its \<open>td\<close> and \<open>th\<close> cells. So the example markup, with one table of one row,
  yields \<open>[[["A", "B"]]]\<close>: a list of tables, each a list of rows.
\<close>

theorem tables_extracted:
  assumes "parse_dom_content L html base_url = Inr (Some d)"
  shows "\<exists>soup. html_parser L html = Inr soup
           \<and> dd_tables d = filter (\<lambda>t. t \<noteq> []) (map table_rows (find_all [''table''] soup))"
proof -
  from assms obtain soup where
    soup: "html_parser L html = Inr soup"
    and d: "dd_tables d = tables_loop [] (find_all [''table''] soup)"
    by (elim parse_dom_content_SomeD) simp
  show ?thesis
    using soup d by (simp add: tables_loop_eq)
qed

text \<open>The example markup of the claim.\<close>

theorem tables_extracted_witness:
  "dd_tables table_doc = filter (\<lambda>t. t \<noteq> []) (map table_rows (find_all [''table''] table_soup))
   \<and> dd_tables table_doc = [[[''A'', ''B'']]]"
  using tables_extracted [OF table_parse] table_html_parser
  by (simp add: table_doc_def)

text \<open>
  Where the claim as first stated fails: on its example markup the value of \<open>tables\<close> is
  not \<open>[["A", "B"]]\<close>, it is one level deeper.
\<close>

theorem tables_example_counterexample:
  "parse_dom_content lib_example table_markup page_url = Inr (Some table_doc)
   \<and> tables_value (dd_tables table_doc) = PList [PList [PList [PStr ''A'', PStr ''B'']]]
   \<and> tables_value (dd_tables table_doc) \<noteq> PList [PList [PStr ''A'', PStr ''B'']]"
  using table_parse by (simp add: table_doc_def tables_value_def)

text \<open>
  C10. Every document returned has, in \<open>contact_info\<close>, an \<open>addresses\<close> entry beside the
  emails and the phones, and its value is the empty list.
\<close>

theorem addresses_always_empty:
  assumes "parse_dom_content L html base_url = Inr (Some d)"
  shows "addresses (dd_contact_info d) = []"
  using assms
  by (elim parse_dom_content_SomeD) (simp add: extract_contact_info_def Let_def)

text \<open>The example page: emails are found, addresses stay empty.\<close>

theorem addresses_always_empty_witness:
  "addresses (dd_contact_info page_doc) = []
   \<and> emails (dd_contact_info page_doc) \<noteq> []"
  using addresses_always_empty [OF page_parse] by (simp add: page_doc_def)

section \<open>The orchestrator\<close>

lemma calls_get_random_user_agent:
  "calls (snd (get_random_user_agent st)) = calls st"
  by (simp add: get_random_user_agent_def split: list.splits)

lemma calls_scrape_with_requests:
  "calls (snd (scrape_with_requests W website st)) = calls st @ [Requests_strategy website]"
  unfolding scrape_with_requests_def Let_def
  by (cases "get_random_user_agent (st\<lparr>calls := calls st @ [Requests_strategy website]\<rparr>)")
     (use calls_get_random_user_agent [of "st\<lparr>calls := calls st @ [Requests_strategy website]\<rparr>"]
      in \<open>auto split: sum.splits\<close>)

lemma calls_scrape_with_selenium:
  "calls (snd (scrape_with_selenium W website st)) = calls st @ [Selenium_strategy website]"
  unfolding scrape_with_selenium_def Let_def
  by (cases "get_random_user_agent (st\<lparr>calls := calls st @ [Selenium_strategy website]\<rparr>)")
     (use calls_get_random_user_agent [of "st\<lparr>calls := calls st @ [Selenium_strategy website]\<rparr>"]
      in \<open>auto split: sum.splits\<close>)

lemma parse_dom_content_no_exn [simp]: "parse_dom_content L html base_url \<noteq> Inl e"
  by (simp add: parse_dom_content_def split: sum.splits)

lemma error_marker_all_failed: "startswith all_failed_message error_marker"
  by (simp add: startswith_def all_failed_message_def error_marker_def)

lemma error_marker_invalid_url: "startswith invalid_url_message error_marker"
  by (simp add: startswith_def invalid_url_message_def error_marker_def)

lemma requests_down_A:
  "scrape_with_requests world_requests_down (add_protocol ''example.com'') state0
     = (None, \<lparr>calls = [Requests_strategy ''https://example.com''], random_draws = []\<rparr>)"
  by (simp add: scrape_with_requests_def world_requests_down_def state0_def
      get_random_user_agent_def add_protocol_def startswith_def Let_def)

lemma requests_down_B:
  "scrape_with_selenium world_requests_down (add_protocol ''example.com'')
       \<lparr>calls = [Requests_strategy ''https://example.com''], random_draws = []\<rparr>
     = (Some browser_page,
        \<lparr>calls = [Requests_strategy ''https://example.com'', Selenium_strategy ''https://example.com''],
         random_draws = []\<rparr>)"
  by (simp add: scrape_with_selenium_def world_requests_down_def
      get_random_user_agent_def add_protocol_def startswith_def Let_def)

lemma all_down_A:
  "scrape_with_requests world_all_down (add_protocol ''example.com'') state0
     = (None, \<lparr>calls = [Requests_strategy ''https://example.com''], random_draws = []\<rparr>)"
  by (simp add: scrape_with_requests_def world_all_down_def state0_def raise_for_status_def
      get_random_user_agent_def add_protocol_def startswith_def Let_def)

lemma all_down_B:
  "scrape_with_selenium world_all_down (add_protocol ''example.com'')
       \<lparr>calls = [Requests_strategy ''https://example.com''], random_draws = []\<rparr>
     = (None,
        \<lparr>calls = [Requests_strategy ''https://example.com'', Selenium_strategy ''https://example.com''],
         random_draws = []\<rparr>)"
  by (simp add: scrape_with_selenium_def world_all_down_def
      get_random_user_agent_def add_protocol_def startswith_def Let_def)

text \<open>
  C1 (as amended). On the empty URL \<open>scrape_website\<close> returns the invalid-URL message and
  calls no strategy: the state is unchanged. For a non-empty URL it calls the requests
  strategy first and once, on the URL with its protocol added. Let \<open>a\<close> be what it returns.
  If \<open>a\<close> is a non-empty string the Selenium strategy is not called. If \<open>a\<close> is \<open>None\<close> or
  the empty string, the Selenium strategy is called once, after it, on the same URL, and
  nothing else is called. In that case, if Selenium returns a non-empty markup \<open>m\<close>, the
  call returns \<open>m\<close>: as the string itself, or as the \<open>html\<close> entry of the dictionary when
  \<open>parse_dom\<close> is set.
\<close>

theorem scrape_website_fallback_chain:
  assumes "scrape_with_requests W (add_protocol website) st = (a, st1)"
    and "scrape_with_selenium W (add_protocol website) st1 = (b, st2)"
  shows "scrape_website W L [] pd st = (Inr (Str invalid_url_message), st)
       \<and> (website \<noteq> [] \<longrightarrow>
            (truthy a \<longrightarrow>
               calls (snd (scrape_website W L website pd st))
                 = calls st @ [Requests_strategy (add_protocol website)])
          \<and> (\<not> truthy a \<longrightarrow>
               calls (snd (scrape_website W L website pd st))
                 = calls st @ [Requests_strategy (add_protocol website),
                               Selenium_strategy (add_protocol website)])
          \<and> (\<forall>m. \<not> truthy a \<and> b = Some m \<and> m \<noteq> [] \<longrightarrow>
               (if pd then \<exists>d. fst (scrape_website W L website pd st)
                                 = Inr (Dict m d (add_protocol website))
                else fst (scrape_website W L website pd st) = Inr (Str m))))"
proof -
  have empty: "scrape_website W L [] pd st = (Inr (Str invalid_url_message), st)"
    by (simp add: scrape_website_def)
  have c1: "calls st1 = calls st @ [Requests_strategy (add_protocol website)]"
    using calls_scrape_with_requests [of W "add_protocol website" st] assms(1) by simp
  have c2: "calls st2 = calls st1 @ [Selenium_strategy (add_protocol website)]"
    using calls_scrape_with_selenium [of W "add_protocol website" st1] assms(2) by simp
  have chain: "(truthy a \<longrightarrow>
               calls (snd (scrape_website W L website pd st))
                 = calls st @ [Requests_strategy (add_protocol website)])
          \<and> (\<not> truthy a \<longrightarrow>
               calls (snd (scrape_website W L website pd st))
                 = calls st @ [Requests_strategy (add_protocol website),
                               Selenium_strategy (add_protocol website)])
          \<and> (\<forall>m. \<not> truthy a \<and> b = Some m \<and> m \<noteq> [] \<longrightarrow>
               (if pd then \<exists>d. fst (scrape_website W L website pd st)
                                 = Inr (Dict m d (add_protocol website))
                else fst (scrape_website W L website pd st) = Inr (Str m)))"
    if ne: "website \<noteq> []"
    using ne assms c1 c2
    by (cases a; cases b) (auto simp: scrape_website_def Let_def split: sum.splits)
  show ?thesis
    using empty chain by blast
qed

text \<open>
  The request raises and the browser returns a page: both strategies are called, in this
  order, and the page of the browser is returned; on the empty URL nothing is called.
\<close>

theorem scrape_website_fallback_chain_witness:
  "calls (snd (scrape_website world_requests_down lib0 ''example.com'' False state0))
     = [Requests_strategy ''https://example.com'', Selenium_strategy ''https://example.com'']
   \<and> fst (scrape_website world_requests_down lib0 ''example.com'' False state0)
     = Inr (Str browser_page)
   \<and> scrape_website world_requests_down lib0 [] False state0
     = (Inr (Str invalid_url_message), state0)"
  using scrape_website_fallback_chain [OF requests_down_A requests_down_B, of lib0 False]
  by (simp add: state0_def browser_page_def add_protocol_def startswith_def)

text \<open>
  Where the claim as first stated fails. The server answers 200 with an empty body: the
  requests strategy returns the empty string, not its failure value \<open>None\<close>, and the
  Selenium strategy is called all the same. On the empty URL no strategy is called at all.
\<close>

theorem scrape_website_fallback_counterexample:
  "fst (scrape_with_requests world_empty_body ''https://example.com'' state0) = Some []
   \<and> calls (snd (scrape_website world_empty_body lib0 ''https://example.com'' False state0))
       = [Requests_strategy ''https://example.com'', Selenium_strategy ''https://example.com'']
   \<and> calls (snd (scrape_website world_empty_body lib0 [] False state0)) = []"
  by (simp add: scrape_website_def scrape_with_requests_def scrape_with_selenium_def
      world_empty_body_def state0_def get_random_user_agent_def raise_for_status_def
      add_protocol_def startswith_def browser_page_def Let_def)

text \<open>
  C5. When neither strategy returns markup (each returns \<open>None\<close> or the empty string),
  \<open>scrape_website\<close> returns a string, never the dictionary; the string begins with the
  error marker, so the callers' test \<open>is_failure\<close> holds of it; for a non-empty URL it is
  the all-methods-failed message.
\<close>

theorem scrape_website_all_failed:
  assumes "scrape_with_requests W (add_protocol website) st = (a, st1)"
    and "scrape_with_selenium W (add_protocol website) st1 = (b, st2)"
    and "\<not> truthy a" and "\<not> truthy b"
  shows "\<exists>s. fst (scrape_website W L website pd st) = Inr (Str s)
             \<and> startswith s error_marker \<and> is_failure (Str s)
             \<and> (website \<noteq> [] \<longrightarrow> s = all_failed_message)"
proof (cases "website = []")
  case True
  then show ?thesis
    using error_marker_invalid_url by (simp add: scrape_website_def)
next
  case False
  have "fst (scrape_website W L website pd st) = Inr (Str all_failed_message)"
    using assms False
    by (cases a; cases b) (auto simp: scrape_website_def Let_def)
  then show ?thesis
    using error_marker_all_failed by simp
qed

text \<open>The server answers 503 and the browser does not start.\<close>

theorem scrape_website_all_failed_witness:
  "fst (scrape_website world_all_down lib0 ''example.com'' True state0) = Inr (Str all_failed_message)
   \<and> startswith all_failed_message error_marker"
  using scrape_website_all_failed [OF all_down_A all_down_B, of lib0 True] by auto

text \<open>A URL in which \<open>urlsplit\<close> finds no scheme begins with neither protocol.\<close>

lemma startswith_append: "startswith s p \<Longrightarrow> \<exists>rest. s = p @ rest"
  unfolding startswith_def by (metis append_take_drop_id)

lemma no_scheme_no_protocol:
  assumes "url_scheme website = []"
  shows "\<not> startswith website ''http://'' \<and> \<not> startswith website ''https://''"
proof -
  have "is_absolute (''http://'' @ rest)" for rest
    using is_absolute_http [of "''//'' @ rest"] by simp
  moreover have "is_absolute (''https://'' @ rest)" for rest
    using is_absolute_https [of "''//'' @ rest"] by simp
  ultimately show ?thesis
    using assms startswith_append [of website "''http://''"]
      startswith_append [of website "''https://''"]
    by (auto simp: is_absolute_def)
qed

text \<open>
  C6. A non-empty URL without a scheme (one in which \<open>urlsplit\<close> finds none), and more
  generally one that begins with neither \<open>http://\<close> nor \<open>https://\<close>, is given the prefix
  \<open>https://\<close> before any strategy runs: the first strategy called is the requests strategy
  on the prefixed URL, and the only other call there can be is the Selenium strategy on the
  same prefixed URL.
\<close>

theorem scrape_website_adds_https:
  assumes "website \<noteq> []"
    and "url_scheme website = []
         \<or> (\<not> startswith website ''http://'' \<and> \<not> startswith website ''https://'')"
  shows "add_protocol website = ''https://'' @ website
       \<and> (\<exists>rest. calls (snd (scrape_website W L website pd st))
                    = calls st @ Requests_strategy (''https://'' @ website) # rest
                \<and> set rest \<subseteq> {Selenium_strategy (''https://'' @ website)})"
proof -
  have np: "\<not> startswith website ''http://'' \<and> \<not> startswith website ''https://''"
    using assms(2) no_scheme_no_protocol by blast
  have p: "add_protocol website = ''https://'' @ website"
    using np by (simp add: add_protocol_def)
  obtain a st1 where a: "scrape_with_requests W (add_protocol website) st = (a, st1)"
    by (cases "scrape_with_requests W (add_protocol website) st")
  obtain b st2 where b: "scrape_with_selenium W (add_protocol website) st1 = (b, st2)"
    by (cases "scrape_with_selenium W (add_protocol website) st1")
  have c1: "calls st1 = calls st @ [Requests_strategy (add_protocol website)]"
    using calls_scrape_with_requests [of W "add_protocol website" st] a by simp
  have c2: "calls st2 = calls st1 @ [Selenium_strategy (add_protocol website)]"
    using calls_scrape_with_selenium [of W "add_protocol website" st1] b by simp
  have "calls (snd (scrape_website W L website pd st))
          = calls st @ Requests_strategy (add_protocol website)
              # (if truthy a then [] else [Selenium_strategy (add_protocol website)])"
    using assms(1) a b c1 c2
    by (cases a; cases b) (auto simp: scrape_website_def Let_def split: sum.splits)
  then show ?thesis
    using p by auto
qed

text \<open>The input \<open>example.com\<close> has no scheme and is dispatched as \<open>https://example.com\<close>.\<close>

lemma example_com_no_scheme: "url_scheme ''example.com'' = []"
  by code_simp

theorem scrape_website_adds_https_witness:
  "url_scheme ''example.com'' = []
   \<and> add_protocol ''example.com'' = ''https://example.com''
   \<and> (\<exists>rest. calls (snd (scrape_website world_requests_down lib0 ''example.com'' False state0))
                = Requests_strategy ''https://example.com'' # rest
              \<and> set rest \<subseteq> {Selenium_strategy ''https://example.com''})"
  using scrape_website_adds_https [of "''example.com''" world_requests_down lib0 False state0]
    example_com_no_scheme
  by (simp add: state0_def)

section \<open>Chunking\<close>

lemma normalize_whitespace_Nil: "normalize_whitespace [] = []"
  by (simp add: normalize_whitespace_def strip_def)

lemma split_text_rec_separators_Nil:
  "split_text_rec chunk_size chunk_overlap separators [] = Inr []"
  by (simp add: separators_def split_text_with_regex_def)

lemma text_splitter_init_ok:
  "0 < chunk_size \<Longrightarrow> 0 \<le> chunk_overlap \<Longrightarrow> chunk_overlap \<le> chunk_size
     \<Longrightarrow> text_splitter_init chunk_size chunk_overlap = Inr ()"
  by (simp add: text_splitter_init_def)

lemma create_content_chunks_empty_text:
  assumes "0 < chunk_size" "0 \<le> chunk_overlap" "chunk_overlap \<le> chunk_size"
    and "content_text L c = Inr t" and "normalize_whitespace t = []"
  shows "create_content_chunks L c chunk_size chunk_overlap = Inr []"
  using assms text_splitter_init_ok [of chunk_size chunk_overlap]
  by (simp add: create_content_chunks_def Let_def split_text_rec_separators_Nil)

text \<open>No chunk the splitter returns is empty.\<close>

lemma join_docs_nonempty: "join_docs docs sep = Some doc \<Longrightarrow> doc \<noteq> []"
  by (auto simp: join_docs_def Let_def split: if_splits)

lemma merge_step_docs:
  assumes "merge_step cs co sep (docs, cur, tot) d = Inr (docs', cur', tot')"
  shows "docs' = docs \<or> (\<exists>doc. join_docs cur sep = Some doc \<and> docs' = docs @ [doc])"
proof (cases "cur = []")
  case True
  then show ?thesis
    using assms by (simp add: merge_step_def Let_def)
next
  case ne: False
  show ?thesis
  proof (cases "cs < tot + int (py_len d) + int (py_len sep)")
    case False
    then show ?thesis
      using assms ne by (simp add: merge_step_def Let_def)
  next
    case True
    show ?thesis
    proof (cases "pop_while cs co (int (py_len sep)) (int (py_len d)) tot cur")
      case (Inl e)
      then show ?thesis
        using assms ne True by (simp add: merge_step_def Let_def)
    next
      case (Inr p)
      then have "docs' = (case join_docs cur sep of None \<Rightarrow> docs | Some doc \<Rightarrow> docs @ [doc])"
        using assms ne True by (cases p) (simp add: merge_step_def Let_def)
      then show ?thesis by (cases "join_docs cur sep") simp_all
    qed
  qed
qed

lemma merge_loop_nonempty:
  "merge_loop cs co sep st splits = Inr st' \<Longrightarrow> [] \<notin> set (fst st) \<Longrightarrow> [] \<notin> set (fst st')"
proof (induction splits arbitrary: st)
  case Nil
  then show ?case by simp
next
  case (Cons d ds)
  obtain docs cur tot where st: "st = (docs, cur, tot)" by (cases st)
  from Cons.prems(1) obtain st1 where s1: "merge_step cs co sep st d = Inr st1"
    and r: "merge_loop cs co sep st1 ds = Inr st'"
    by (auto split: sum.splits)
  obtain docs1 cur1 tot1 where st1: "st1 = (docs1, cur1, tot1)" by (cases st1)
  have "[] \<notin> set docs1"
    using merge_step_docs [of cs co sep docs cur tot d docs1 cur1 tot1] s1 st st1 Cons.prems(2)
    by (auto dest: join_docs_nonempty)
  then show ?case using Cons.IH [OF r] st1 by simp
qed

lemma merge_splits_nonempty:
  assumes "merge_splits cs co splits sep = Inr docs"
  shows "[] \<notin> set docs"
proof -
  from assms obtain ds cur tot where
    l: "merge_loop cs co sep ([], [], 0) splits = Inr (ds, cur, tot)"
    and d: "docs = (case join_docs cur sep of None \<Rightarrow> ds | Some doc \<Rightarrow> ds @ [doc])"
    by (auto simp: merge_splits_def split: sum.splits prod.splits)
  have "[] \<notin> set ds"
    using merge_loop_nonempty [OF l] by simp
  then show ?thesis
    using d by (cases "join_docs cur sep") (auto dest: join_docs_nonempty)
qed


lemma split_loop_nonempty:
  assumes rec: "\<And>f s r. recurse = Some f \<Longrightarrow> f s = Inr r \<Longrightarrow> [] \<notin> set r"
  shows "split_loop cs co recurse final good splits = Inr res \<Longrightarrow> [] \<notin> set final
     \<Longrightarrow> [] \<notin> set splits \<Longrightarrow> [] \<notin> set res"
proof (induction splits arbitrary: final good)
  case Nil
  show ?case
  proof (cases "good = []")
    case True
    then show ?thesis using Nil by simp
  next
    case False
    then obtain merged where "merge_splits cs co good [] = Inr merged" "res = final @ merged"
      using Nil.prems(1) by (auto split: sum.splits)
    then show ?thesis
      using Nil.prems(2) merge_splits_nonempty by auto
  qed
next
  case (Cons s ss)
  have s_ne: "s \<noteq> []" and ss_ne: "[] \<notin> set ss"
    using Cons.prems(3) by auto
  show ?case
  proof (cases "int (py_len s) < cs")
    case True
    then have "split_loop cs co recurse final (good @ [s]) ss = Inr res"
      using Cons.prems(1) by simp
    then show ?thesis
      using Cons.IH Cons.prems(2) ss_ne by blast
  next
    case False
    then obtain merged where
      m: "(if good \<noteq> [] then merge_splits cs co good [] else Inr []) = Inr merged"
      using Cons.prems(1) by (auto split: sum.splits)
    have mne: "[] \<notin> set merged"
      using m merge_splits_nonempty by (auto split: if_splits)
    show ?thesis
    proof (cases recurse)
      case None
      then have "split_loop cs co recurse (final @ merged @ [s]) [] ss = Inr res"
        using Cons.prems(1) False m by simp
      moreover have "[] \<notin> set (final @ merged @ [s])"
        using Cons.prems(2) mne s_ne by auto
      ultimately show ?thesis
        using Cons.IH ss_ne by blast
    next
      case (Some f)
      then obtain other where o: "f s = Inr other"
        and r: "split_loop cs co recurse (final @ merged @ other) [] ss = Inr res"
        using Cons.prems(1) False m by (auto split: sum.splits)
      have "[] \<notin> set other"
        using rec [OF Some o] .
      then have "[] \<notin> set (final @ merged @ other)"
        using Cons.prems(2) mne by auto
      then show ?thesis
        using Cons.IH [OF r] ss_ne by blast
    qed
  qed
qed

lemma split_text_with_regex_nonempty: "[] \<notin> set (split_text_with_regex text sep)"
  by (simp add: split_text_with_regex_def)

lemma split_text_rec_nonempty:
  "split_text_rec cs co sl t = Inr out \<Longrightarrow> [] \<notin> set out"
proof (induction sl arbitrary: t out)
  case Nil
  then show ?case by simp
next
  case (Cons s sl)
  have none: "split_loop cs co None [] [] (split_text_with_regex t sp) = Inr out
                \<Longrightarrow> [] \<notin> set out" for sp
    using split_loop_nonempty [of None cs co "[]" "[]"] split_text_with_regex_nonempty
    by auto
  have some: "split_loop cs co (if sl = [] then None else Some (split_text_rec cs co sl))
                  [] [] (split_text_with_regex t sp) = Inr out
                \<Longrightarrow> [] \<notin> set out" for sp
  proof -
    assume a: "split_loop cs co (if sl = [] then None else Some (split_text_rec cs co sl))
                 [] [] (split_text_with_regex t sp) = Inr out"
    have "\<And>f u r. (if sl = [] then None else Some (split_text_rec cs co sl)) = Some f
             \<Longrightarrow> f u = Inr r \<Longrightarrow> [] \<notin> set r"
      using Cons.IH by (auto split: if_splits)
    from split_loop_nonempty [OF this a] show ?thesis
      using split_text_with_regex_nonempty by simp
  qed
  show ?case
  proof (cases "s = []")
    case True
    then show ?thesis using Cons.prems none by simp
  next
    case ne: False
    show ?thesis
    proof (cases "contains s t")
      case True
      then show ?thesis using Cons.prems ne some by simp
    next
      case False
      then show ?thesis
        using Cons.prems ne none Cons.IH by (cases "sl = []") simp_all
    qed
  qed
qed

lemma create_content_chunks_nonempty:
  assumes "create_content_chunks L c cs co = Inr chunks"
  shows "[] \<notin> set chunks"
proof -
  from assms obtain t where
    "split_text_rec cs co separators (normalize_whitespace t) = Inr chunks"
    unfolding create_content_chunks_def Let_def
    by (auto split: sum.splits if_splits)
  then show ?thesis by (rule split_text_rec_nonempty)
qed

text \<open>
  C8. With sizes the splitter accepts (\<open>0 < chunk_size\<close>, \<open>0 \<le> chunk_overlap \<le> chunk_size\<close>),
  \<open>create_content_chunks\<close> on the empty string returns the empty list and does not raise,
  given that the HTML parser turns the empty markup into the empty document; so it does
  on any other object whose text is empty, and on every content whose extracted text is
  empty or only whitespace. Whatever the content, no chunk returned is the empty string.
\<close>

theorem create_content_chunks_empty:
  assumes "0 < chunk_size" "0 \<le> chunk_overlap" "chunk_overlap \<le> chunk_size"
  shows "(html_parser L [] = Inr [] \<longrightarrow>
            create_content_chunks L (Content_str []) chunk_size chunk_overlap = Inr [])
       \<and> create_content_chunks L (Content_other []) chunk_size chunk_overlap = Inr []
       \<and> (\<forall>t. content_text L c = Inr t \<and> normalize_whitespace t = [] \<longrightarrow>
            create_content_chunks L c chunk_size chunk_overlap = Inr [])
       \<and> (\<forall>chunks. create_content_chunks L c chunk_size chunk_overlap = Inr chunks \<longrightarrow>
            [] \<notin> set chunks)"
proof (intro conjI impI allI)
  assume "html_parser L [] = Inr []"
  then have "content_text L (Content_str []) = Inr []"
    by (simp add: content_text_def)
  then show "create_content_chunks L (Content_str []) chunk_size chunk_overlap = Inr []"
    using create_content_chunks_empty_text [OF assms] normalize_whitespace_Nil by blast
next
  have "content_text L (Content_other []) = Inr []"
    by (simp add: content_text_def)
  then show "create_content_chunks L (Content_other []) chunk_size chunk_overlap = Inr []"
    using create_content_chunks_empty_text [OF assms] normalize_whitespace_Nil by blast
next
  fix t assume "content_text L c = Inr t \<and> normalize_whitespace t = []"
  then show "create_content_chunks L c chunk_size chunk_overlap = Inr []"
    using create_content_chunks_empty_text [OF assms] by blast
next
  fix chunks assume "create_content_chunks L c chunk_size chunk_overlap = Inr chunks"
  then show "[] \<notin> set chunks"
    by (rule create_content_chunks_nonempty)
qed

text \<open>The default sizes and the empty string.\<close>

theorem create_content_chunks_empty_witness:
  "create_content_chunks lib_example (Content_str []) 1000 200 = Inr []
   \<and> create_content_chunks lib_example (Content_str []) 1000 200 \<noteq> Inr [[]]"
  using create_content_chunks_empty [of 1000 200 lib_example] empty_html_parser
  by simp

end
